theory Spec2Isabelle
  imports Main "HOL-Library.Log_Nat" "HOL-Library.Sublist"
begin

section \<open>JavaScript values used by server.js\<close>

subsection \<open>Numbers\<close>

text \<open>
  A JavaScript Number is an IEEE-754 binary64 value.  The finite ones are modelled by the
  rational number they denote, and every arithmetic operation rounds its exact result
  back to binary64 (round to nearest, ties to even, overflow to an infinity).  The two
  zeros are not told apart: \<open>Num 0\<close> stands for both; server.js never divides by a
  zero, and JSON prints both as 0.
\<close>

datatype jsnum = NaN | PInf | NInf | Num rat

text \<open>The integer \<open>e\<close> with \<open>2 ^ e \<le> x < 2 ^ (e + 1)\<close>, for \<open>x > 0\<close>.\<close>

definition flog2 :: "rat \<Rightarrow> int" where
  "flog2 x = (case quotient_of x of (p, q) \<Rightarrow>
     (let d = bitlen p - bitlen q in if 2 powi d \<le> x then d else d - 1))"

definition round_half_even :: "rat \<Rightarrow> int" where
  "round_half_even y =
     (let f = \<lfloor>y\<rfloor>; d = y - of_int f
      in if d < 1 / 2 then f else if 1 / 2 < d then f + 1
         else if even f then f else f + 1)"

text \<open>
  Rounding of an exact value to binary64: 53 significant bits, the least exponent
  \<open>-1022\<close> (below it the spacing stays \<open>2 ^ -1074\<close>), and an infinity when the
  rounded value reaches \<open>2 ^ 1024\<close>, that is, when its exponent is above 1023.
\<close>

definition round64 :: "rat \<Rightarrow> jsnum" where
  "round64 x =
     (if x = 0 then Num 0
      else let e = max (flog2 \<bar>x\<bar>) (- 1022);
               q = 2 powi (e - 52);
               r = of_int (round_half_even (x / q)) * q
           in if r \<noteq> 0 \<and> 1024 \<le> flog2 \<bar>r\<bar> then (if x < 0 then NInf else PInf)
              else Num r)"

fun js_neg :: "jsnum \<Rightarrow> jsnum" where
  "js_neg NaN = NaN"
| "js_neg PInf = NInf"
| "js_neg NInf = PInf"
| "js_neg (Num a) = Num (- a)"

text \<open>\<open>a + b\<close> on Numbers.\<close>

fun js_add :: "jsnum \<Rightarrow> jsnum \<Rightarrow> jsnum" where
  "js_add NaN _ = NaN"
| "js_add _ NaN = NaN"
| "js_add PInf NInf = NaN"
| "js_add NInf PInf = NaN"
| "js_add PInf _ = PInf"
| "js_add _ PInf = PInf"
| "js_add NInf _ = NInf"
| "js_add _ NInf = NInf"
| "js_add (Num a) (Num b) = round64 (a + b)"

text \<open>\<open>a - b\<close> on Numbers.\<close>

definition js_sub :: "jsnum \<Rightarrow> jsnum \<Rightarrow> jsnum" where
  "js_sub a b = js_add a (js_neg b)"

definition inf_of_sign :: "bool \<Rightarrow> jsnum" where
  "inf_of_sign negative = (if negative then NInf else PInf)"

fun is_negative :: "jsnum \<Rightarrow> bool" where
  "is_negative NInf = True"
| "is_negative (Num a) = (a < 0)"
| "is_negative _ = False"

text \<open>\<open>a * b\<close> on Numbers.\<close>

fun js_mul :: "jsnum \<Rightarrow> jsnum \<Rightarrow> jsnum" where
  "js_mul NaN _ = NaN"
| "js_mul _ NaN = NaN"
| "js_mul (Num a) (Num b) = round64 (a * b)"
| "js_mul (Num a) b = (if a = 0 then NaN else inf_of_sign ((a < 0) \<noteq> is_negative b))"
| "js_mul a (Num b) = (if b = 0 then NaN else inf_of_sign (is_negative a \<noteq> (b < 0)))"
| "js_mul a b = inf_of_sign (is_negative a \<noteq> is_negative b)"

text \<open>
  \<open>a / b\<close> on Numbers.  A finite value divided by zero is an infinity whose sign also
  depends on the sign of the zero; the model takes the zero as positive.
\<close>

fun js_div :: "jsnum \<Rightarrow> jsnum \<Rightarrow> jsnum" where
  "js_div NaN _ = NaN"
| "js_div _ NaN = NaN"
| "js_div (Num a) (Num b) =
     (if b = 0 then (if a = 0 then NaN else inf_of_sign (a < 0)) else round64 (a / b))"
| "js_div (Num a) b = Num 0"
| "js_div a (Num b) = inf_of_sign (is_negative a \<noteq> (b < 0))"
| "js_div a b = NaN"

text \<open>\<open>Math.min(a, b)\<close>.\<close>

fun Math_min :: "jsnum \<Rightarrow> jsnum \<Rightarrow> jsnum" where
  "Math_min NaN _ = NaN"
| "Math_min _ NaN = NaN"
| "Math_min NInf _ = NInf"
| "Math_min _ NInf = NInf"
| "Math_min PInf b = b"
| "Math_min a PInf = a"
| "Math_min (Num a) (Num b) = Num (min a b)"

text \<open>\<open>Math.ceil(a)\<close>.\<close>

fun Math_ceil :: "jsnum \<Rightarrow> jsnum" where
  "Math_ceil (Num a) = Num (of_int \<lceil>a\<rceil>)"
| "Math_ceil a = a"

text \<open>Truthiness of a Number, and \<open>a || b\<close> on Numbers.\<close>

fun truthy_num :: "jsnum \<Rightarrow> bool" where
  "truthy_num NaN = False"
| "truthy_num (Num a) = (a \<noteq> 0)"
| "truthy_num _ = True"

definition js_or :: "jsnum \<Rightarrow> jsnum \<Rightarrow> jsnum" where
  "js_or a b = (if truthy_num a then a else b)"

subsection \<open>Strings and numbers\<close>

text \<open>
  A string is a list of code units; the model has the code units below 256.  The
  white space that \<open>parseInt\<close> and \<open>parseFloat\<close> skip is TAB, LF, VT, FF, CR, SP and
  NBSP there.
\<close>

definition is_ws :: "char \<Rightarrow> bool" where
  "is_ws c = (c \<in> set [CHR 0x09, CHR 0x0A, CHR 0x0B, CHR 0x0C, CHR 0x0D, CHR 0x20, CHR 0xA0])"

definition is_digit :: "char \<Rightarrow> bool" where
  "is_digit c = (48 \<le> (of_char c :: int) \<and> (of_char c :: int) \<le> 57)"

definition digit_val :: "char \<Rightarrow> int" where
  "digit_val c = of_char c - 48"

definition digits_val :: "string \<Rightarrow> int" where
  "digits_val Z = foldl (\<lambda>acc c. 10 * acc + digit_val c) 0 Z"

text \<open>
  \<open>parseInt(inputString, 10)\<close>: skip white space, read a sign, take the longest run
  of decimal digits; no digit gives NaN, otherwise the Number nearest to the integer.
\<close>

definition parseInt :: "string \<Rightarrow> jsnum" where
  "parseInt inputString =
     (let S = dropWhile is_ws inputString;
          negative = (case S of [] \<Rightarrow> False | c # _ \<Rightarrow> c = CHR ''-'');
          S' = (case S of [] \<Rightarrow> [] | c # r \<Rightarrow> if c = CHR ''+'' \<or> c = CHR ''-'' then r else S);
          Z = takeWhile is_digit S'
      in if Z = [] then NaN
         else if negative then js_neg (round64 (of_int (digits_val Z)))
         else round64 (of_int (digits_val Z)))"

text \<open>The decimal digits of a non-negative integer, as Number-to-string conversion writes
  one below \<open>10 ^ 21\<close>.\<close>

definition digit_char :: "int \<Rightarrow> char" where
  "digit_char d = char_of (48 + d)"

function show_int :: "int \<Rightarrow> string" where
  "show_int n = (if n < 10 then [digit_char n] else show_int (n div 10) @ [digit_char (n mod 10)])"
  by pat_completeness auto
termination
  by (relation "measure nat") auto

declare show_int.simps [simp del]

definition show_nat :: "nat \<Rightarrow> string" where
  "show_nat n = show_int (int n)"

subsection \<open>parseFloat and toFixed\<close>

text \<open>
  The exponent part of a decimal literal, if one starts the string: \<open>e\<close> or \<open>E\<close>, an
  optional sign, at least one digit.  The result is the exponent and the rest.
\<close>

definition exponent_part :: "string \<Rightarrow> int \<times> string" where
  "exponent_part s =
     (case s of
        [] \<Rightarrow> (0, s)
      | c # t \<Rightarrow>
          if c = CHR ''e'' \<or> c = CHR ''E'' then
            (let negative = (case t of [] \<Rightarrow> False | d # _ \<Rightarrow> d = CHR ''-'');
                 t' = (case t of [] \<Rightarrow> []
                       | d # r \<Rightarrow> if d = CHR ''+'' \<or> d = CHR ''-'' then r else t);
                 ds = takeWhile is_digit t'
             in if ds = [] then (0, s)
                else ((if negative then - digits_val ds else digits_val ds),
                      dropWhile is_digit t'))
          else (0, s))"

text \<open>
  The longest prefix that is an unsigned decimal literal (digits, an optional fraction,
  an optional exponent; \<open>5.\<close> and \<open>.5\<close> are literals, \<open>.\<close> is not): its exact
  value and the rest, or \<open>None\<close> when there is no such prefix.
\<close>

definition unsigned_decimal :: "string \<Rightarrow> (rat \<times> string) option" where
  "unsigned_decimal s =
     (let ip = takeWhile is_digit s;
          r1 = dropWhile is_digit s;
          has_dot = (case r1 of [] \<Rightarrow> False | c # _ \<Rightarrow> c = CHR ''.'');
          fp = (if has_dot then takeWhile is_digit (tl r1) else []);
          r2 = (if has_dot then dropWhile is_digit (tl r1) else r1)
      in if ip = [] \<and> fp = [] then None
         else (case exponent_part r2 of (ex, r3) \<Rightarrow>
           Some ((of_int (digits_val ip) + of_int (digits_val fp) / 10 ^ length fp) * 10 powi ex,
                 r3)))"

text \<open>
  \<open>parseFloat(string)\<close>: skip white space, read a sign, then \<open>Infinity\<close> or the longest
  decimal literal; NaN when there is none, otherwise the Number nearest to its value.
\<close>

definition parseFloat :: "string \<Rightarrow> jsnum" where
  "parseFloat inputString =
     (let S = dropWhile is_ws inputString;
          negative = (case S of [] \<Rightarrow> False | c # _ \<Rightarrow> c = CHR ''-'');
          S' = (case S of [] \<Rightarrow> [] | c # r \<Rightarrow> if c = CHR ''+'' \<or> c = CHR ''-'' then r else S)
      in if prefix ''Infinity'' S' then inf_of_sign negative
         else (case unsigned_decimal S' of
                 None \<Rightarrow> NaN
               | Some (x, _) \<Rightarrow> if negative then js_neg (round64 x) else round64 x))"

text \<open>
  Number-to-string conversion of a finite Number \<open>x \<ge> 10 ^ 21\<close> (an integer): the
  shortest decimal digit string \<open>s\<close> with \<open>s * 10 ^ (n - k)\<close> rounding to \<open>x\<close>, the
  nearest to \<open>x\<close> among those of that length, in exponent notation.
  \<open>digits_exp x k\<close> is the candidate with \<open>k\<close> digits, if one rounds to \<open>x\<close>.
\<close>

definition digits_exp :: "int \<Rightarrow> nat \<Rightarrow> (int \<times> nat) option" where
  "digits_exp X k =
     (let d = length (show_int X);
          p = 10 ^ (d - k);
          lo = X div p;
          ok_lo = (round64 (of_int (lo * p)) = Num (of_int X));
          ok_hi = (round64 (of_int ((lo + 1) * p)) = Num (of_int X));
          s = (if ok_lo \<and> (\<not> ok_hi \<or> X - lo * p \<le> (lo + 1) * p - X) then Some lo
               else if ok_hi then Some (lo + 1) else None)
      in case s of
           None \<Rightarrow> None
         | Some s \<Rightarrow> if s = 10 ^ k then Some (10 ^ (k - 1), d) else Some (s, d - 1))"

definition exponent_notation :: "int \<times> nat \<Rightarrow> string" where
  "exponent_notation se =
     (case se of (s, e) \<Rightarrow>
        (case show_int s of
           [] \<Rightarrow> []
         | c # cs \<Rightarrow> (if cs = [] then [c] else c # ''.'' @ cs) @ ''e+'' @ show_nat e))"

definition Number_toString_large :: "int \<Rightarrow> string" where
  "Number_toString_large X =
     (case List.map_filter (digits_exp X) [1 ..< 18] of
        [] \<Rightarrow> show_int X
      | se # _ \<Rightarrow> exponent_notation se)"

text \<open>\<open>x.toFixed(f)\<close>.\<close>

definition toFixed :: "nat \<Rightarrow> jsnum \<Rightarrow> string" where
  "toFixed f x =
     (case x of
        NaN \<Rightarrow> ''NaN''
      | PInf \<Rightarrow> ''Infinity''
      | NInf \<Rightarrow> ''-Infinity''
      | Num a \<Rightarrow>
          (let s = (if a < 0 then ''-'' else []);
               x' = \<bar>a\<bar>
           in if 10 ^ 21 \<le> x' then s @ Number_toString_large \<lfloor>x'\<rfloor>
              else
                (let n = \<lfloor>x' * 10 ^ f + 1 / 2\<rfloor>;
                     m = show_int n;
                     m' = (if f = 0 then m
                           else (let z = replicate (f + 1 - length m) (CHR ''0'') @ m;
                                     k = length z
                                 in take (k - f) z @ ''.'' @ drop (k - f) z))
                 in s @ m')))"

subsection \<open>Query-string values\<close>

text \<open>
  Express gives a query parameter as a string, as an array (a repeated parameter) or as
  an object (a bracketed parameter); an absent parameter is \<open>undefined\<close>, here
  \<open>None\<close>.  An object is taken not to shadow \<open>toString\<close>.
\<close>

datatype qval = QStr string | QArr "qval list" | QObj "(string \<times> qval) list"

text \<open>\<open>Array.prototype.join\<close> on strings.\<close>

fun join :: "string \<Rightarrow> string list \<Rightarrow> string" where
  "join sep [] = []"
| "join sep [x] = x"
| "join sep (x # y # ys) = x @ sep @ join sep (y # ys)"

fun ToString :: "qval \<Rightarrow> string" where
  "ToString (QStr s) = s"
| "ToString (QArr vs) = join '','' (map ToString vs)"
| "ToString (QObj kvs) = ''[object Object]''"

text \<open>Truthiness, as \<open>if (req.query.priority)\<close> tests it: \<open>undefined\<close> and the empty
  string are falsy, every other string, array and object is truthy.\<close>

fun truthy :: "qval option \<Rightarrow> bool" where
  "truthy None = False"
| "truthy (Some (QStr s)) = (s \<noteq> [])"
| "truthy (Some _) = True"

text \<open>\<open>Array.prototype.includes\<close> on an array of strings: no array or object is equal to
  a string.\<close>

fun array_includes :: "string list \<Rightarrow> qval \<Rightarrow> bool" where
  "array_includes xs (QStr s) = (s \<in> set xs)"
| "array_includes xs _ = False"

subsection \<open>Errors\<close>

text \<open>
  Every value thrown in server.js or by what it calls is an Error object with a
  message: the one the source constructs for a status that is not a success, a
  rejection of \<open>fetch\<close>, a SyntaxError of \<open>response.json()\<close>, a TypeError of a read
  on \<open>undefined\<close> or \<open>null\<close>, an error of the database driver.
\<close>

datatype error_kind = NetworkError | HttpError | SyntaxError | TypeError | DatabaseError

datatype js_error = JsError (kind: error_kind) (message: string)

subsection \<open>JSON values and the reads fetchWalletInfo makes on them\<close>

text \<open>
  A value as \<open>response.json()\<close> returns it.  The list of an object holds its own
  properties, each key once.  \<open>undefined\<close>, the result of reading a property that is
  not there, is \<open>None\<close>.
\<close>

datatype json =
  JNull | JBool bool | JNumber jsnum | JString string | JArray "json list"
  | JObject "(string \<times> json) list"

text \<open>An array index as a property key: the decimal digits of a number, without a
  leading zero.\<close>

definition array_index :: "string \<Rightarrow> nat option" where
  "array_index k =
     (if k \<noteq> [] \<and> list_all is_digit k \<and> (k = ''0'' \<or> hd k \<noteq> CHR ''0'')
      then Some (nat (digits_val k)) else None)"

text \<open>
  \<open>v[k]\<close> for a value \<open>v\<close> other than \<open>null\<close>: an own property of an object, an element
  or the length of an array or a string.  A name that \<open>v\<close> only inherits from its
  prototype (a built-in method such as \<open>toString\<close>) is read as \<open>undefined\<close>; the
  built-in has none of the properties read next, so the same read fails one step later
  in the source, with a TypeError of another wording.
\<close>

fun get_own :: "json \<Rightarrow> string \<Rightarrow> json option" where
  "get_own (JObject kvs) k = map_of kvs k"
| "get_own (JArray xs) k =
     (if k = ''length'' then Some (JNumber (Num (of_nat (length xs))))
      else (case array_index k of
              None \<Rightarrow> None
            | Some i \<Rightarrow> if i < length xs then Some (xs ! i) else None))"
| "get_own (JString t) k =
     (if k = ''length'' then Some (JNumber (Num (of_nat (length t))))
      else (case array_index k of
              None \<Rightarrow> None
            | Some i \<Rightarrow> if i < length t then Some (JString [t ! i]) else None))"
| "get_own _ k = None"

definition cannot_read :: "string \<Rightarrow> string \<Rightarrow> js_error" where
  "cannot_read what k =
     JsError TypeError (''Cannot read properties of '' @ what @ '' (reading '' @ [CHR 0x27] @ k
       @ [CHR 0x27] @ '')'')"

text \<open>\<open>v[k]\<close> or \<open>v.k\<close>: a TypeError when \<open>v\<close> is \<open>undefined\<close> or \<open>null\<close>.\<close>

fun read_property :: "json option \<Rightarrow> string \<Rightarrow> js_error + json option" where
  "read_property None k = Inl (cannot_read ''undefined'' k)"
| "read_property (Some JNull) k = Inl (cannot_read ''null'' k)"
| "read_property (Some v) k = Inr (get_own v k)"

text \<open>\<open>v.slice(0, 10)\<close>: arrays and strings have the method, nothing else that JSON
  gives has a callable \<open>slice\<close>.\<close>

fun slice_0_10 :: "json option \<Rightarrow> js_error + json" where
  "slice_0_10 None = Inl (cannot_read ''undefined'' ''slice'')"
| "slice_0_10 (Some JNull) = Inl (cannot_read ''null'' ''slice'')"
| "slice_0_10 (Some (JArray xs)) = Inr (JArray (take 10 xs))"
| "slice_0_10 (Some (JString t)) = Inr (JString (take 10 t))"
| "slice_0_10 (Some _) =
     Inl (JsError TypeError ''data.data[addr].transactions.slice is not a function'')"

text \<open>
  The conversion of a string to a Number that \<open>/\<close> applies: white space trimmed at both
  ends, the empty string is 0, then a decimal literal, \<open>Infinity\<close>, or an unsigned
  hexadecimal, octal or binary integer; anything else is NaN.
\<close>

definition radix_digit :: "char \<Rightarrow> int" where
  "radix_digit c =
     (let n = (of_char c :: int)
      in if 48 \<le> n \<and> n \<le> 57 then n - 48
         else if 97 \<le> n \<and> n \<le> 122 then n - 87
         else if 65 \<le> n \<and> n \<le> 90 then n - 55
         else 36)"

definition radix_literal :: "int \<Rightarrow> string \<Rightarrow> jsnum" where
  "radix_literal R ds =
     (if ds \<noteq> [] \<and> list_all (\<lambda>c. radix_digit c < R) ds
      then round64 (of_int (foldl (\<lambda>acc c. R * acc + radix_digit c) 0 ds))
      else NaN)"

definition StringToNumber :: "string \<Rightarrow> jsnum" where
  "StringToNumber str =
     (let t = rev (dropWhile is_ws (rev (dropWhile is_ws str)))
      in if t = [] then Num 0
         else if prefix ''0x'' t \<or> prefix ''0X'' t then radix_literal 16 (drop 2 t)
         else if prefix ''0o'' t \<or> prefix ''0O'' t then radix_literal 8 (drop 2 t)
         else if prefix ''0b'' t \<or> prefix ''0B'' t then radix_literal 2 (drop 2 t)
         else
           (let negative = (hd t = CHR ''-'');
                u = (if hd t = CHR ''+'' \<or> hd t = CHR ''-'' then tl t else t)
            in if u = ''Infinity'' then inf_of_sign negative
               else (case unsigned_decimal u of
                       Some (x, []) \<Rightarrow> if negative then js_neg (round64 x) else round64 x
                     | _ \<Rightarrow> NaN)))"

text \<open>
  The conversion of a value to a Number.  An array converts through its string, the
  join of its elements: no element gives the empty string, one element its own string
  (for a Number, the string that reads back as that Number), more than one a string
  with a comma, which is no numeric literal.
\<close>

fun ToNumber :: "json \<Rightarrow> jsnum" where
  "ToNumber JNull = Num 0"
| "ToNumber (JBool b) = (if b then Num 1 else Num 0)"
| "ToNumber (JNumber x) = x"
| "ToNumber (JString t) = StringToNumber t"
| "ToNumber (JArray []) = Num 0"
| "ToNumber (JArray [JNull]) = Num 0"
| "ToNumber (JArray [JBool b]) = NaN"
| "ToNumber (JArray [JObject kvs]) = NaN"
| "ToNumber (JArray [v]) = ToNumber v"
| "ToNumber (JArray (v # w # vs)) = NaN"
| "ToNumber (JObject kvs) = NaN"

text \<open>\<open>v / 1e8\<close>, where \<open>v\<close> may be \<open>undefined\<close>.\<close>

definition div_1e8 :: "json option \<Rightarrow> jsnum" where
  "div_1e8 v = js_div (case v of None \<Rightarrow> NaN | Some j \<Rightarrow> ToNumber j) (Num 100000000)"

section \<open>The list endpoint: GET /api/v1/cards\<close>

subsection \<open>Pagination, sorting and the WHERE clause\<close>

record query =
  page :: "qval option"
  per_page :: "qval option"
  sort_by :: "qval option"
  sort_dir :: "qval option"
  priority :: "qval option"
  status :: "qval option"
  stage :: "qval option"
  tags :: "qval option"

text \<open>
  The destructuring of \<open>req.query\<close> with its defaults.  \<open>page\<close> and \<open>per_page\<close> are only
  ever read by \<open>parseInt\<close>, which takes its argument as a string: the defaults, the
  numbers 1 and 10, are the strings \<open>1\<close> and \<open>10\<close> there.
\<close>

definition page_string :: "query \<Rightarrow> string" where
  "page_string q = (case page q of None \<Rightarrow> ''1'' | Some v \<Rightarrow> ToString v)"

definition per_page_string :: "query \<Rightarrow> string" where
  "per_page_string q = (case per_page q of None \<Rightarrow> ''10'' | Some v \<Rightarrow> ToString v)"

definition sort_by_value :: "query \<Rightarrow> qval" where
  "sort_by_value q = (case sort_by q of None \<Rightarrow> QStr ''last_updated'' | Some v \<Rightarrow> v)"

definition sort_dir_value :: "query \<Rightarrow> qval" where
  "sort_dir_value q = (case sort_dir q of None \<Rightarrow> QStr ''desc'' | Some v \<Rightarrow> v)"

definition limit :: "query \<Rightarrow> jsnum" where
  "limit q = Math_min (js_or (parseInt (per_page_string q)) (Num 10)) (Num 100)"

definition offset :: "query \<Rightarrow> jsnum" where
  "offset q = js_mul (js_sub (parseInt (page_string q)) (Num 1)) (limit q)"

definition validSortBy :: "string list" where
  "validSortBy = [''last_updated'', ''priority'', ''percent_funded'', ''date'']"

definition validSortDir :: "string list" where
  "validSortDir = [''asc'', ''desc'']"

definition sortBySafe :: "query \<Rightarrow> qval" where
  "sortBySafe q =
     (if array_includes validSortBy (sort_by_value q) then sort_by_value q else QStr ''last_updated'')"

definition sortDirSafe :: "query \<Rightarrow> qval" where
  "sortDirSafe q =
     (if array_includes validSortDir (sort_dir_value q) then sort_dir_value q else QStr ''desc'')"

text \<open>
  The three variables the filters update: the conditions, the bound values and the
  index of the next placeholder.
\<close>

record builder =
  conditions :: "string list"
  bound_values :: "qval list"
  idx :: nat

text \<open>One \<open>if (req.query.f) { conditions.push(`pre $${idx++} post`); values.push(req.query.f); }\<close>.\<close>

definition push_filter :: "string \<Rightarrow> string \<Rightarrow> qval option \<Rightarrow> builder \<Rightarrow> builder" where
  "push_filter pre post f b =
     (case f of
        Some v \<Rightarrow>
          if truthy f
          then \<lparr>conditions = conditions b @ [pre @ ''$'' @ show_nat (idx b) @ post],
                bound_values = bound_values b @ [v],
                idx = idx b + 1\<rparr>
          else b
      | None \<Rightarrow> b)"

definition visibility_public :: string where
  "visibility_public = ''visibility = 'PUBLIC'' @ [CHR 0x27]"

definition filters :: "query \<Rightarrow> builder" where
  "filters q =
     (let b0 = \<lparr>conditions = [visibility_public], bound_values = [], idx = 1\<rparr>;
          b1 = push_filter ''priority = '' [] (priority q) b0;
          b2 = push_filter ''status = '' [] (status q) b1;
          b3 = push_filter ''stage = '' [] (stage q) b2;
          b4 = push_filter ''tags && string_to_array('' '', ',')'' (tags q) b3
      in b4)"

definition whereClause :: "query \<Rightarrow> string" where
  "whereClause q = join '' AND '' (conditions (filters q))"

text \<open>The text of the count query and of the page query, and the page query's bound
  parameters \<open>[...values, limit, offset]\<close>.\<close>

definition count_sql :: "query \<Rightarrow> string" where
  "count_sql q = ''SELECT COUNT(*) FROM cards WHERE '' @ whereClause q"

definition page_sql :: "query \<Rightarrow> string" where
  "page_sql q =
     ''SELECT * FROM cards WHERE '' @ whereClause q
       @ '' ORDER BY '' @ ToString (sortBySafe q) @ '' '' @ ToString (sortDirSafe q)
       @ '' LIMIT $'' @ show_nat (idx (filters q))
       @ '' OFFSET $'' @ show_nat (idx (filters q) + 1)"

datatype sqlparam = PQuery qval | PNumber jsnum | PString string

definition count_params :: "query \<Rightarrow> sqlparam list" where
  "count_params q = map PQuery (bound_values (filters q))"

definition page_params :: "query \<Rightarrow> sqlparam list" where
  "page_params q = map PQuery (bound_values (filters q)) @ [PNumber (limit q), PNumber (offset q)]"

subsection \<open>The database\<close>

text \<open>
  A row of the table \<open>cards\<close>: its identifier (a UUID), its visibility, its wallet
  addresses (an array, or NULL) and the remaining columns, which the handlers pass
  through.  A row of \<open>card_stage_funding\<close> as the handler selects it: the owning card,
  the stage and the requested amount, a numeric that the driver returns as a string,
  or NULL.
\<close>

record card =
  c_id :: string
  visibility :: string
  wallet_addresses :: "string list option"
  columns :: "(string \<times> string) list"

record funding_row =
  row_card_id :: string
  row_stage :: string
  row_funding_requested :: "string option"

text \<open>
  The database as one request sees it: the two tables, and what the server does with the
  SQL the handlers send.  \<open>where_holds w vs c\<close> says whether the row \<open>c\<close> satisfies the
  WHERE clause \<open>w\<close> under the bound values \<open>vs\<close>; \<open>sort_rank col dir c\<close> is the place of
  \<open>c\<close> in the order \<open>ORDER BY col dir\<close>; \<open>query_fails sql ps\<close> is the error, if any, with
  which the statement \<open>sql\<close> with parameters \<open>ps\<close> fails (a lost connection, a value
  of the wrong type).
\<close>

record database =
  cards_table :: "card list"
  card_stage_funding_table :: "funding_row list"
  where_holds :: "string \<Rightarrow> qval list \<Rightarrow> card \<Rightarrow> bool"
  sort_rank :: "string \<Rightarrow> string \<Rightarrow> card \<Rightarrow> nat"
  query_fails :: "string \<Rightarrow> sqlparam list \<Rightarrow> js_error option"

definition matching :: "database \<Rightarrow> query \<Rightarrow> card list" where
  "matching db q =
     filter (where_holds db (whereClause q) (bound_values (filters q))) (cards_table db)"

text \<open>\<open>SELECT COUNT(*) FROM cards WHERE ...\<close>: one row, whose \<open>count\<close> is a bigint, which the
  driver returns as a string of digits.\<close>

definition query_count :: "database \<Rightarrow> query \<Rightarrow> js_error + string" where
  "query_count db q =
     (case query_fails db (count_sql q) (count_params q) of
        Some e \<Rightarrow> Inl e
      | None \<Rightarrow> Inr (show_nat (length (matching db q))))"

text \<open>A LIMIT or OFFSET parameter has to be a non-negative integer in the range of
  bigint; the server rejects the statement otherwise.\<close>

definition sql_bigint :: "jsnum \<Rightarrow> nat option" where
  "sql_bigint x =
     (case x of
        Num a \<Rightarrow> if 0 \<le> a \<and> of_int \<lfloor>a\<rfloor> = a \<and> a < 2 ^ 63 then Some (nat \<lfloor>a\<rfloor>) else None
      | _ \<Rightarrow> None)"

definition bad_limit_offset :: js_error where
  "bad_limit_offset = JsError DatabaseError ''LIMIT or OFFSET is not a non-negative bigint''"

text \<open>\<open>SELECT * FROM cards WHERE ... ORDER BY ... LIMIT ... OFFSET ...\<close>.\<close>

definition query_page :: "database \<Rightarrow> query \<Rightarrow> js_error + card list" where
  "query_page db q =
     (case query_fails db (page_sql q) (page_params q) of
        Some e \<Rightarrow> Inl e
      | None \<Rightarrow>
          (case (sql_bigint (limit q), sql_bigint (offset q)) of
             (Some n_limit, Some n_offset) \<Rightarrow>
               Inr (take n_limit (drop n_offset
                 (sort_key (sort_rank db (ToString (sortBySafe q)) (ToString (sortDirSafe q)))
                    (matching db q))))
           | _ \<Rightarrow> Inl bad_limit_offset))"

text \<open>\<open>SELECT card_id, stage, funding_requested FROM card_stage_funding\<close> (the white space
  of the source's text aside).\<close>

definition stage_funding_sql :: string where
  "stage_funding_sql = ''SELECT card_id, stage, funding_requested FROM card_stage_funding''"

definition query_stage_funding :: "database \<Rightarrow> js_error + funding_row list" where
  "query_stage_funding db =
     (case query_fails db stage_funding_sql [] of
        Some e \<Rightarrow> Inl e
      | None \<Rightarrow> Inr (card_stage_funding_table db))"

subsection \<open>Grouping the stage funding and the response\<close>

text \<open>
  An element of \<open>stage_funding\<close>.  The statement above selects neither \<open>currency\<close> nor
  \<open>note\<close>, so \<open>row.currency || 'ZEC'\<close> is \<open>'ZEC'\<close> and \<open>row.note || null\<close> is \<open>null\<close>.
\<close>

record stage_entry =
  s_stage :: string
  s_funding_requested :: "string option"
  s_currency :: string
  s_note :: "string option"

definition entry_of :: "funding_row \<Rightarrow> stage_entry" where
  "entry_of row = \<lparr>s_stage = row_stage row, s_funding_requested = row_funding_requested row,
     s_currency = ''ZEC'', s_note = None\<rparr>"

text \<open>
  The loop that fills \<open>stageFundingMap\<close>, an object used as a map from card identifiers
  (UUIDs, never the name of a property that every object inherits) to arrays.
\<close>

fun group_rows ::
  "funding_row list \<Rightarrow> (string \<rightharpoonup> stage_entry list) \<Rightarrow> (string \<rightharpoonup> stage_entry list)" where
  "group_rows [] m = m"
| "group_rows (row # rows) m =
     (let m1 = (case m (row_card_id row) of None \<Rightarrow> m(row_card_id row \<mapsto> []) | Some _ \<Rightarrow> m);
          m2 = (case m1 (row_card_id row) of
                  None \<Rightarrow> m1
                | Some es \<Rightarrow> m1(row_card_id row \<mapsto> es @ [entry_of row]))
      in group_rows rows m2)"

definition stageFundingMap :: "funding_row list \<Rightarrow> (string \<rightharpoonup> stage_entry list)" where
  "stageFundingMap rows = group_rows rows Map.empty"

text \<open>\<open>parseFloat(s.funding_requested || 0)\<close>: NULL and the empty string are falsy, and
  \<open>parseFloat(0)\<close> reads the string \<open>0\<close>.\<close>

definition amount :: "string option \<Rightarrow> jsnum" where
  "amount v = parseFloat (case v of None \<Rightarrow> ''0'' | Some t \<Rightarrow> if t = [] then ''0'' else t)"

definition requested :: "stage_entry \<Rightarrow> jsnum" where
  "requested s = amount (s_funding_requested s)"

definition totalRequested :: "stage_entry list \<Rightarrow> string" where
  "totalRequested stageEntries =
     toFixed 8 (foldl (\<lambda>sum s. js_add sum (requested s)) (Num 0) stageEntries)"

record card_with_funding =
  card_row :: card
  stage_funding :: "stage_entry list"
  total_funding_requested :: string

definition cardsWithFunding ::
  "(string \<rightharpoonup> stage_entry list) \<Rightarrow> card list \<Rightarrow> card_with_funding list" where
  "cardsWithFunding m rows =
     map (\<lambda>c. let stageEntries = (case m (c_id c) of None \<Rightarrow> [] | Some es \<Rightarrow> es)
              in \<lparr>card_row = c, stage_funding = stageEntries,
                   total_funding_requested = totalRequested stageEntries\<rparr>) rows"

record pagination =
  current_page :: jsnum
  pagination_per_page :: jsnum
  total_pages :: jsnum

record list_body =
  pagination :: pagination
  cards :: "card_with_funding list"

text \<open>A response: the status, the headers the handler sets, and the JSON body, either
  the data or \<open>{error: message}\<close>.\<close>

datatype 'a body = Json 'a | ErrorJson string

datatype 'a response = Response (res_status: nat) (res_headers: "(string \<times> string) list")
  (res_body: "'a body")

definition cache_control :: "(string \<times> string) list" where
  "cache_control = [(''Cache-Control'', ''public, max-age=30'')]"

definition list_cards :: "database \<Rightarrow> query \<Rightarrow> list_body response" where
  "list_cards db q =
     (case query_count db q of
        Inl err \<Rightarrow> Response 500 cache_control (ErrorJson ''Internal server error'')
      | Inr count \<Rightarrow>
          (let totalRows = parseInt count;
               totalPages = Math_ceil (js_div totalRows (limit q))
           in case query_page db q of
                Inl err \<Rightarrow> Response 500 cache_control (ErrorJson ''Internal server error'')
              | Inr result \<Rightarrow>
                  (case query_stage_funding db of
                     Inl err \<Rightarrow> Response 500 cache_control (ErrorJson ''Internal server error'')
                   | Inr stageFundingResult \<Rightarrow>
                       Response 200 cache_control
                         (Json \<lparr>pagination =
                                  \<lparr>current_page = parseInt (page_string q),
                                   pagination_per_page = limit q,
                                   total_pages = totalPages\<rparr>,
                                cards = cardsWithFunding (stageFundingMap stageFundingResult) result\<rparr>))))"

section \<open>The detail endpoint: GET /api/v1/cards/:id\<close>

subsection \<open>fetchAddressData and fetchWalletInfo\<close>

text \<open>
  The remote service: what \<open>fetch(url)\<close> settles with.  It rejects with an error (no
  response), or resolves with a response that has a status and a body, which
  \<open>response.json()\<close> either parses or rejects with a SyntaxError.
\<close>

record http_response =
  http_status :: nat
  http_json :: "js_error + json"

type_synonym upstream = "string \<Rightarrow> js_error + http_response"

definition response_ok :: "http_response \<Rightarrow> bool" where
  "response_ok response = (200 \<le> http_status response \<and> http_status response \<le> 299)"

definition address_url :: "string \<Rightarrow> string" where
  "address_url address =
     ''https://api.blockchair.com/zcash/dashboards/address/'' @ address @ ''?transactions=true''"

definition fetchAddressData :: "upstream \<Rightarrow> string \<Rightarrow> js_error + json" where
  "fetchAddressData fetch address =
     (case fetch (address_url address) of
        Inl e \<Rightarrow> Inl e
      | Inr response \<Rightarrow>
          if \<not> response_ok response
          then Inl (JsError HttpError (''HTTP error '' @ show_nat (http_status response)))
          else http_json response)"

datatype wallet_entry =
  AddressInfo (address: string) (entry_balance: jsnum) (entry_total_received: jsnum)
    (entry_total_sent: jsnum) (entry_transactions: json)
  | AddressError (address: string) (error: string)

text \<open>The variables of the loop.\<close>

record wallet_state =
  results :: "wallet_entry list"
  total_balance :: jsnum
  total_received :: jsnum
  total_sent :: jsnum

text \<open>
  The \<open>try\<close> block for one address, in the order of the source.  Its first part
  fetches and reads the answer, and can throw at each step; the entry it builds is the
  object pushed at the end.  Its second part updates the totals and pushes the entry;
  nothing there can throw.
\<close>

definition address_info :: "upstream \<Rightarrow> string \<Rightarrow> js_error + wallet_entry" where
  "address_info fetch addr =
     (case fetchAddressData fetch addr of Inl e \<Rightarrow> Inl e | Inr data \<Rightarrow>
      case read_property (Some data) ''data'' of Inl e \<Rightarrow> Inl e | Inr data_data \<Rightarrow>
      case read_property data_data addr of Inl e \<Rightarrow> Inl e | Inr data_addr \<Rightarrow>
      case read_property data_addr ''address'' of Inl e \<Rightarrow> Inl e | Inr info \<Rightarrow>
      case read_property info ''balance'' of Inl e \<Rightarrow> Inl e | Inr info_balance \<Rightarrow>
      case read_property info ''received'' of Inl e \<Rightarrow> Inl e | Inr info_received \<Rightarrow>
      case read_property info ''sent'' of Inl e \<Rightarrow> Inl e | Inr info_sent \<Rightarrow>
      case read_property data_addr ''transactions'' of Inl e \<Rightarrow> Inl e | Inr txs \<Rightarrow>
      case slice_0_10 txs of Inl e \<Rightarrow> Inl e | Inr transactions \<Rightarrow>
        Inr (AddressInfo addr (div_1e8 info_balance) (div_1e8 info_received) (div_1e8 info_sent)
               transactions))"

definition try_block :: "upstream \<Rightarrow> string \<Rightarrow> wallet_state \<Rightarrow> js_error + wallet_state" where
  "try_block fetch addr st =
     (case address_info fetch addr of
        Inl e \<Rightarrow> Inl e
      | Inr entry \<Rightarrow>
          Inr \<lparr>results = results st @ [entry],
               total_balance = js_add (total_balance st) (entry_balance entry),
               total_received = js_add (total_received st) (entry_total_received entry),
               total_sent = js_add (total_sent st) (entry_total_sent entry)\<rparr>)"

text \<open>The \<open>catch\<close> block: it cannot throw, every thrown value here is an Error with a
  message.\<close>

definition catch_block :: "string \<Rightarrow> wallet_state \<Rightarrow> js_error \<Rightarrow> js_error + wallet_state" where
  "catch_block addr st err = Inr (st\<lparr>results := results st @ [AddressError addr (message err)]\<rparr>)"

definition try_catch :: "'e + 'a \<Rightarrow> ('e \<Rightarrow> 'e + 'a) \<Rightarrow> 'e + 'a" where
  "try_catch block handler = (case block of Inl e \<Rightarrow> handler e | Inr v \<Rightarrow> Inr v)"

fun wallet_loop :: "upstream \<Rightarrow> string list \<Rightarrow> wallet_state \<Rightarrow> js_error + wallet_state" where
  "wallet_loop fetch [] st = Inr st"
| "wallet_loop fetch (addr # addresses) st =
     (case try_catch (try_block fetch addr st) (catch_block addr st) of
        Inl e \<Rightarrow> Inl e
      | Inr st' \<Rightarrow> wallet_loop fetch addresses st')"

record totals =
  totals_balance :: jsnum
  totals_total_received :: jsnum
  totals_total_sent :: jsnum

record wallet_info =
  addresses :: "wallet_entry list"
  totals :: totals

definition fetchWalletInfo :: "upstream \<Rightarrow> string list \<Rightarrow> js_error + wallet_info" where
  "fetchWalletInfo fetch addrs =
     (case wallet_loop fetch addrs
             \<lparr>results = [], total_balance = Num 0, total_received = Num 0, total_sent = Num 0\<rparr> of
        Inl e \<Rightarrow> Inl e
      | Inr st \<Rightarrow>
          Inr \<lparr>addresses = results st,
               totals = \<lparr>totals_balance = total_balance st,
                          totals_total_received = total_received st,
                          totals_total_sent = total_sent st\<rparr>\<rparr>)"

subsection \<open>The handler\<close>

definition card_by_id_sql :: string where
  "card_by_id_sql = ''SELECT * FROM cards WHERE id = $1 AND visibility = 'PUBLIC'' @ [CHR 0x27]"

text \<open>\<open>SELECT * FROM cards WHERE id = $1 AND visibility = 'PUBLIC'\<close>.\<close>

definition query_card :: "database \<Rightarrow> string \<Rightarrow> js_error + card list" where
  "query_card db ident =
     (case query_fails db card_by_id_sql [PString ident] of
        Some e \<Rightarrow> Inl e
      | None \<Rightarrow> Inr (filter (\<lambda>c. c_id c = ident \<and> visibility c = ''PUBLIC'') (cards_table db)))"

text \<open>The body of a 200 response: the card, the card with \<open>wallet_info\<close>, or the card with
  \<open>wallet_info_error\<close>.\<close>

datatype card_body =
  CardOnly card
  | CardWithWalletInfo card wallet_info
  | CardWithWalletInfoError card string

definition get_card :: "database \<Rightarrow> upstream \<Rightarrow> string \<Rightarrow> card_body response" where
  "get_card db fetch ident =
     (case query_card db ident of
        Inl err \<Rightarrow> Response 500 cache_control (ErrorJson ''Internal server error'')
      | Inr rows \<Rightarrow>
          (case rows of
             [] \<Rightarrow> Response 404 cache_control (ErrorJson ''Not Found'')
           | card_r # _ \<Rightarrow>
               (case wallet_addresses card_r of
                  Some (a # as) \<Rightarrow>
                    (case fetchWalletInfo fetch (a # as) of
                       Inr walletInfo \<Rightarrow>
                         Response 200 cache_control (Json (CardWithWalletInfo card_r walletInfo))
                     | Inl err \<Rightarrow>
                         Response 200 cache_control
                           (Json (CardWithWalletInfoError card_r ''Failed to retrieve wallet info'')))
                | _ \<Rightarrow> Response 200 cache_control (Json (CardOnly card_r)))))"

section \<open>Notions the statements use\<close>

text \<open>
  Which of the four filters the handler takes as present (its own test is truthiness),
  and the raw values of those, in the handler's order.
\<close>

definition present :: "query \<Rightarrow> bool \<times> bool \<times> bool \<times> bool" where
  "present q = (truthy (priority q), truthy (status q), truthy (stage q), truthy (tags q))"

definition present_values :: "query \<Rightarrow> qval list" where
  "present_values q =
     List.map_filter (\<lambda>f. if truthy f then f else None) [priority q, status q, stage q, tags q]"

text \<open>
  The entry that belongs to one address: the data of a lookup that succeeds, the
  address and the message of the error of one that fails.
\<close>

definition entry_for :: "upstream \<Rightarrow> string \<Rightarrow> wallet_entry" where
  "entry_for fetch addr =
     (case address_info fetch addr of
        Inl e \<Rightarrow> AddressError addr (message e)
      | Inr entry \<Rightarrow> entry)"

fun succeeded :: "wallet_entry \<Rightarrow> bool" where
  "succeeded (AddressInfo a b r s t) = True"
| "succeeded (AddressError a m) = False"











text \<open>
  The decimal total in the words of the specification: the exact sum of the requested
  amounts, each read as the decimal number its digits write (NULL as 0), formatted with
  8 fractional digits.  \<open>Num\<close> holds the exact sum here, no rounding to binary64 takes
  place.
\<close>

definition exact_amount :: "string option \<Rightarrow> rat" where
  "exact_amount v =
     (case v of
        None \<Rightarrow> 0
      | Some t \<Rightarrow>
          (let negative = (t \<noteq> [] \<and> hd t = CHR ''-'');
               u = (if negative then tl t else t)
           in case unsigned_decimal u of
                None \<Rightarrow> 0
              | Some (x, _) \<Rightarrow> if negative then - x else x))"

definition exact_total :: "string option list \<Rightarrow> string" where
  "exact_total vs = toFixed 8 (Num (sum_list (map exact_amount vs)))"

section \<open>Example data\<close>

text \<open>The request without any query parameter.\<close>

definition no_query :: query where
  "no_query = \<lparr>page = None, per_page = None, sort_by = None, sort_dir = None,
     priority = None, status = None, stage = None, tags = None\<rparr>"

text \<open>
  A database with two public cards and a private one; the first card has two funding
  rows, requesting 1.5 and 2.25, and two wallet addresses.  Every statement succeeds,
  and the filters are taken to let every public card through.
\<close>

definition card_a :: card where
  "card_a = \<lparr>c_id = ''4c999973-8929-4f51-8964-21f2677935e4'', visibility = ''PUBLIC'',
     wallet_addresses = Some [''t1good'', ''t1down''], columns = [(''title'', ''A'')]\<rparr>"

definition card_b :: card where
  "card_b = \<lparr>c_id = ''0b1e5c2a-7d3f-4a6b-9c8d-1e2f3a4b5c6d'', visibility = ''PUBLIC'',
     wallet_addresses = None, columns = [(''title'', ''B'')]\<rparr>"

definition card_private :: card where
  "card_private = \<lparr>c_id = ''9a8b7c6d-5e4f-4a3b-8c2d-1e0f9a8b7c6d'', visibility = ''PRIVATE'',
     wallet_addresses = None, columns = [(''title'', ''C'')]\<rparr>"

definition example_db :: database where
  "example_db =
     \<lparr>cards_table = [card_a, card_b, card_private],
      card_stage_funding_table =
        [\<lparr>row_card_id = c_id card_a, row_stage = ''DESIGN'', row_funding_requested = Some ''1.5''\<rparr>,
         \<lparr>row_card_id = c_id card_a, row_stage = ''DEVELOP'', row_funding_requested = Some ''2.25''\<rparr>],
      where_holds = (\<lambda>w vs c. visibility c = ''PUBLIC''),
      sort_rank = (\<lambda>col dir c. 0),
      query_fails = (\<lambda>sql ps. None)\<rparr>"

text \<open>The same database with one funding row for the first card, a numeric(20,8) amount
  above \<open>2 ^ 26\<close>.\<close>

definition large_amount_db :: database where
  "large_amount_db =
     example_db\<lparr>card_stage_funding_table :=
        [\<lparr>row_card_id = c_id card_a, row_stage = ''DESIGN'',
          row_funding_requested = Some ''90071992.54740993''\<rparr>]\<rparr>"

text \<open>
  A remote service that knows the address \<open>t1good\<close>, with a balance of 150000000
  units, 250000000 received, 100000000 sent and twelve transactions, answers 503 for
  \<open>t1down\<close>, and cannot be reached for any other address.
\<close>

definition good_answer :: json where
  "good_answer =
     JObject [(''data'', JObject [(''t1good'',
       JObject [(''address'', JObject [(''balance'', JNumber (Num 150000000)),
                                       (''received'', JNumber (Num 250000000)),
                                       (''sent'', JNumber (Num 100000000))]),
                (''transactions'', JArray (map (\<lambda>i. JString (show_nat i)) [0 ..< 12]))])])]"

definition example_upstream :: upstream where
  "example_upstream url =
     (if url = address_url ''t1good'' then Inr \<lparr>http_status = 200, http_json = Inr good_answer\<rparr>
      else if url = address_url ''t1down''
        then Inr \<lparr>http_status = 503, http_json = Inl (JsError SyntaxError ''Unexpected token'')\<rparr>
      else Inl (JsError NetworkError ''fetch failed''))"



text \<open>What the list endpoint answers for the first page of size one of \<open>example_db\<close>.\<close>

definition page_one :: query where
  "page_one = no_query\<lparr>per_page := Some (QStr ''1'')\<rparr>"

definition example_page :: list_body where
  "example_page =
     \<lparr>pagination = \<lparr>current_page = Num 1, pagination_per_page = Num 1, total_pages = Num 2\<rparr>,
      cards =
        [\<lparr>card_row = card_a,
          stage_funding =
            [\<lparr>s_stage = ''DESIGN'', s_funding_requested = Some ''1.5'', s_currency = ''ZEC'',
               s_note = None\<rparr>,
             \<lparr>s_stage = ''DEVELOP'', s_funding_requested = Some ''2.25'', s_currency = ''ZEC'',
               s_note = None\<rparr>],
          total_funding_requested = ''3.75000000''\<rparr>]\<rparr>"

section \<open>Verification: rounding to binary64\<close>

lemma powi_bitlen_bounds:
  assumes "0 < (p::int)"
  shows "(2::rat) powi (bitlen p - 1) \<le> of_int p" and "of_int p < (2::rat) powi (bitlen p)"
proof -
  have b: "0 \<le> bitlen p - 1"
    using assms bitlen_eq_zero_iff [of p] bitlen_nonneg [of p] by linarith
  have "(2::int) ^ nat (bitlen p - 1) \<le> p" and "p < 2 ^ nat (bitlen p)"
    using bitlen_bounds [OF assms] by auto
  then have "(of_int ((2::int) ^ nat (bitlen p - 1)) :: rat) \<le> of_int p"
    and "(of_int p :: rat) < of_int (2 ^ nat (bitlen p))"
    by (simp_all only: of_int_le_iff of_int_less_iff)
  then show "(2::rat) powi (bitlen p - 1) \<le> of_int p" and "of_int p < (2::rat) powi (bitlen p)"
    using b by (simp_all add: power_int_def)
qed

lemma flog2_bounds:
  assumes "0 < x"
  shows "2 powi (flog2 x) \<le> x \<and> x < 2 powi (flog2 x + 1)"
proof -
  obtain p q where pq: "quotient_of x = (p, q)" by (cases "quotient_of x")
  have q: "0 < q" using quotient_of_denom_pos [OF pq] .
  have x: "x = of_int p / of_int q" using quotient_of_div [OF pq] .
  have p: "0 < p" using assms q x by (simp add: zero_less_divide_iff)
  let ?d = "bitlen p - bitlen q"
  have lo: "(2::rat) powi (?d - 1) < x"
  proof -
    have "(2::rat) powi (?d - 1) = 2 powi (bitlen p - 1) / 2 powi (bitlen q)"
      by (simp add: power_int_diff)
    also have "\<dots> \<le> of_int p / 2 powi (bitlen q)"
      using powi_bitlen_bounds(1) [OF p] by (simp add: divide_right_mono)
    also have "\<dots> < of_int p / of_int q"
      using powi_bitlen_bounds(2) [OF q] p q by (simp add: divide_strict_left_mono)
    finally show ?thesis using x by simp
  qed
  have hi: "x < (2::rat) powi (?d + 1)"
  proof -
    have "x = of_int p / of_int q" by (rule x)
    also have "\<dots> < 2 powi (bitlen p) / of_int q"
      using powi_bitlen_bounds(2) [OF p] q by (simp add: divide_strict_right_mono)
    also have "\<dots> \<le> 2 powi (bitlen p) / 2 powi (bitlen q - 1)"
      using powi_bitlen_bounds(1) [OF q] q by (simp add: divide_left_mono)
    also have "\<dots> = (2::rat) powi (?d + 1)"
      by (simp add: power_int_diff power_int_add)
    finally show ?thesis .
  qed
  show ?thesis
  proof (cases "2 powi ?d \<le> x")
    case True
    then have "flog2 x = ?d" by (simp add: flog2_def pq Let_def)
    then show ?thesis using True hi by simp
  next
    case False
    then have "flog2 x = ?d - 1" by (simp add: flog2_def pq Let_def)
    then show ?thesis using False lo by simp
  qed
qed

lemma flog2_unique:
  assumes "2 powi e \<le> x" and "x < 2 powi (e + 1)"
  shows "flog2 x = e"
proof -
  have "(0::rat) < 2 powi e" by simp
  then have x: "0 < x" using assms(1) by linarith
  from flog2_bounds [OF x] have a: "2 powi (flog2 x) \<le> x" and b: "x < 2 powi (flog2 x + 1)"
    by auto
  have 1: "e < flog2 x + 1"
  proof (rule ccontr)
    assume "\<not> e < flog2 x + 1"
    then have "(2::rat) powi (flog2 x + 1) \<le> 2 powi e"
      by (intro power_int_increasing) auto
    then show False using assms(1) b by linarith
  qed
  have 2: "flog2 x < e + 1"
  proof (rule ccontr)
    assume "\<not> flog2 x < e + 1"
    then have "(2::rat) powi (e + 1) \<le> 2 powi (flog2 x)"
      by (intro power_int_increasing) auto
    then show False using assms(2) a by linarith
  qed
  show ?thesis using 1 2 by simp
qed

lemma round_half_even_of_int: "round_half_even (of_int z) = z"
  by (simp add: round_half_even_def)

lemma round_half_even_le:
  assumes "y \<le> of_int z"
  shows "round_half_even y \<le> z"
proof -
  have f: "\<lfloor>y\<rfloor> \<le> z" using assms by (simp add: floor_le_iff)
  show ?thesis
  proof (cases "y = of_int \<lfloor>y\<rfloor>")
    case True
    then have "round_half_even y = \<lfloor>y\<rfloor>"
      by (metis round_half_even_of_int)
    then show ?thesis using f by simp
  next
    case False
    then have "of_int \<lfloor>y\<rfloor> < y" using of_int_floor_le [of y] by linarith
    then have "of_int \<lfloor>y\<rfloor> < (of_int z :: rat)" using assms by linarith
    then have "\<lfloor>y\<rfloor> < z" by simp
    then show ?thesis by (simp add: round_half_even_def Let_def)
  qed
qed

lemma round_half_even_ge:
  assumes "of_int z \<le> y"
  shows "z \<le> round_half_even y"
proof -
  have "z \<le> \<lfloor>y\<rfloor>" using assms by (simp add: le_floor_iff)
  then show ?thesis by (simp add: round_half_even_def Let_def)
qed

lemma round_half_even_close: "\<bar>of_int (round_half_even y) - y\<bar> \<le> 1 / 2"
proof -
  have "of_int \<lfloor>y\<rfloor> \<le> y" "y < of_int \<lfloor>y\<rfloor> + 1" by linarith+
  then show ?thesis by (auto simp: round_half_even_def Let_def)
qed

lemma flog2_less:
  assumes "0 < x" and "x < 2 powi k"
  shows "flog2 x < k"
proof (rule ccontr)
  assume "\<not> flog2 x < k"
  then have "(2::rat) powi k \<le> 2 powi (flog2 x)" by (intro power_int_increasing) auto
  then show False using flog2_bounds [OF assms(1)] assms(2) by linarith
qed

lemma round64_normal:
  assumes "x \<noteq> 0" and "- 1022 \<le> flog2 \<bar>x\<bar>"
    and "\<bar>of_int (round_half_even (x / 2 powi (flog2 \<bar>x\<bar> - 52))) * 2 powi (flog2 \<bar>x\<bar> - 52) :: rat\<bar>
           < 2 powi 1024"
  shows "round64 x
       = Num (of_int (round_half_even (x / 2 powi (flog2 \<bar>x\<bar> - 52))) * 2 powi (flog2 \<bar>x\<bar> - 52))"
proof -
  define r :: rat where
    "r = of_int (round_half_even (x / 2 powi (flog2 \<bar>x\<bar> - 52))) * 2 powi (flog2 \<bar>x\<bar> - 52)"
  have m: "max (flog2 \<bar>x\<bar>) (- 1022) = flog2 \<bar>x\<bar>" using assms(2) by simp
  have k: "\<not> (r \<noteq> 0 \<and> 1024 \<le> flog2 \<bar>r\<bar>)"
  proof
    assume a: "r \<noteq> 0 \<and> 1024 \<le> flog2 \<bar>r\<bar>"
    then have "0 < \<bar>r\<bar>" by simp
    then have "flog2 \<bar>r\<bar> < 1024" using assms(3) unfolding r_def [symmetric] by (rule flog2_less)
    then show False using a by simp
  qed
  have "round64 x = (if r \<noteq> 0 \<and> 1024 \<le> flog2 \<bar>r\<bar> then (if x < 0 then NInf else PInf) else Num r)"
    using assms(1) unfolding round64_def Let_def m r_def by (simp only: if_False)
  then have "round64 x = Num r" by (simp only: k if_False)
  then show ?thesis unfolding r_def .
qed

lemma round64_of_int:
  assumes "\<bar>n\<bar> \<le> 2 ^ 53"
  shows "round64 (of_int n) = Num (of_int n)"
proof (cases "n = 0")
  case True
  then show ?thesis by (simp add: round64_def)
next
  case False
  define e where "e = flog2 \<bar>of_int n\<bar>"
  have pos: "(0::rat) < \<bar>of_int n\<bar>" using False by simp
  from flog2_bounds [OF pos] have lo: "2 powi e \<le> \<bar>of_int n :: rat\<bar>"
    and hi: "\<bar>of_int n :: rat\<bar> < 2 powi (e + 1)" by (simp_all add: e_def)
  have one: "(1::rat) \<le> \<bar>of_int n\<bar>" using False by (simp flip: of_int_abs)
  have e0: "0 \<le> e"
  proof (rule ccontr)
    assume "\<not> 0 \<le> e"
    then have "(2::rat) powi (e + 1) \<le> 2 powi 0" by (intro power_int_increasing) auto
    then show False using hi one by simp
  qed
  have le53: "\<bar>of_int n :: rat\<bar> \<le> 2 ^ 53"
    using assms by (metis of_int_abs of_int_le_iff of_int_numeral of_int_power)
  have e53: "e \<le> 53"
  proof (rule ccontr)
    assume "\<not> e \<le> 53"
    then have "(2::rat) powi 54 \<le> 2 powi e" by (intro power_int_increasing) auto
    then show False using lo le53 by simp
  qed
  have m: "max e (- 1022) = e" using e0 by simp
  have ex: "\<exists>k::int. (of_int n :: rat) / 2 powi (e - 52) = of_int k"
  proof (cases "e \<le> 52")
    case True
    have "(of_int n :: rat) / 2 powi (e - 52) = of_int n * 2 powi (52 - e)"
      by (simp add: power_int_diff)
    also have "\<dots> = of_int (n * 2 ^ nat (52 - e))"
      using True by (simp add: power_int_def)
    finally show ?thesis by blast
  next
    case False
    then have e: "e = 53" using e53 by simp
    then have "(2::rat) ^ 53 \<le> \<bar>of_int n\<bar>" using lo by simp
    then have "\<bar>of_int n :: rat\<bar> = 2 ^ 53" using le53 by simp
    then consider "(of_int n :: rat) = 2 ^ 53" | "(of_int n :: rat) = - (2 ^ 53)" by linarith
    then show ?thesis
    proof cases
      case 1
      then have "(of_int n :: rat) / 2 powi (e - 52) = of_int (2 ^ 52)" using e by simp
      then show ?thesis by blast
    next
      case 2
      then have "(of_int n :: rat) / 2 powi (e - 52) = of_int (- (2 ^ 52))" using e by simp
      then show ?thesis by blast
    qed
  qed
  then obtain k :: int where k: "(of_int n :: rat) / 2 powi (e - 52) = of_int k" by blast
  have r: "of_int (round_half_even (of_int n / 2 powi (e - 52))) * 2 powi (e - 52) = (of_int n :: rat)"
    unfolding k round_half_even_of_int using k [symmetric] by simp
  have n0: "(of_int n :: rat) \<noteq> 0" using False by simp
  have e1: "- 1022 \<le> flog2 \<bar>of_int n :: rat\<bar>" using e0 by (simp add: e_def)
  have "(2::rat) ^ 53 < 2 powi 1024" by simp
  then have "\<bar>of_int n :: rat\<bar> < 2 powi 1024" using le53 by linarith
  then have b1: "\<bar>of_int (round_half_even (of_int n / 2 powi (flog2 \<bar>of_int n :: rat\<bar> - 52)))
      * 2 powi (flog2 \<bar>of_int n :: rat\<bar> - 52) :: rat\<bar> < 2 powi 1024"
    using r by (simp add: e_def)
  show ?thesis
    using round64_normal [OF n0 e1 b1] r by (simp add: e_def)
qed

lemma Math_ceil_js_div:
  assumes a: "0 \<le> a" "a < 2 ^ 53" and b: "1 \<le> b" "b \<le> 100"
  shows "Math_ceil (js_div (Num (of_int a)) (Num (of_int b)))
       = Num (of_int \<lceil>(of_int a :: rat) / of_int b\<rceil>)"
proof (cases "a = 0")
  case True
  then show ?thesis using b by (simp add: round64_def)
next
  case False
  define x :: rat where "x = of_int a / of_int b"
  define c where "c = \<lceil>x\<rceil>"
  define e where "e = flog2 \<bar>x\<bar>"
  have bpos: "(0::rat) < of_int b" using b by simp
  have apos: "(1::rat) \<le> of_int a" using a False by simp
  have xpos: "0 < x" using apos bpos by (simp add: x_def)
  then have absx: "\<bar>x\<bar> = x" by simp
  from flog2_bounds [OF xpos] have lo: "2 powi e \<le> x" and hi: "x < 2 powi (e + 1)"
    by (simp_all add: e_def absx)
  have xge: "1 / 100 \<le> x"
  proof -
    have "(of_int b :: rat) \<le> 100" using b by simp
    then have "1 / 100 \<le> 1 / (of_int b :: rat)" using bpos by (simp add: frac_le)
    also have "\<dots> \<le> of_int a / of_int b" using apos bpos by (simp add: divide_right_mono)
    finally show ?thesis by (simp add: x_def)
  qed
  have elo: "- 7 \<le> e"
  proof (rule ccontr)
    assume "\<not> - 7 \<le> e"
    then have "(2::rat) powi (e + 1) \<le> 2 powi (- 7)" by (intro power_int_increasing) auto
    then show False using hi xge by (simp add: power_int_minus)
  qed
  have xlt: "x * of_int b < 2 ^ 53"
  proof -
    have "x * of_int b = of_int a" using bpos by (simp add: x_def)
    moreover have "(of_int a :: rat) < 2 ^ 53" using a(2) by (metis of_int_less_iff of_int_numeral of_int_power)
    ultimately show ?thesis by simp
  qed
  have ehi: "e \<le> 52"
  proof (rule ccontr)
    assume "\<not> e \<le> 52"
    then have "(2::rat) powi 53 \<le> 2 powi e" by (intro power_int_increasing) auto
    then have "(2::rat) ^ 53 \<le> x" using lo by simp
    moreover have "x \<le> x * of_int b" using xpos b by (simp add: mult_le_cancel_left1)
    ultimately show False using xlt by linarith
  qed
  define M :: int where "M = 2 ^ nat (52 - e)"
  have Mpos: "0 < M" by (simp add: M_def)
  have q: "(2::rat) powi (e - 52) = 1 / of_int M"
  proof -
    have "(2::rat) powi (e - 52) = 2 powi (- (52 - e))" by simp
    also have "\<dots> = inverse (2 powi (52 - e))" by (rule power_int_minus)
    also have "\<dots> = 1 / of_int M" using ehi by (simp add: M_def power_int_def inverse_eq_divide)
    finally show ?thesis .
  qed
  have xq: "x / 2 powi (e - 52) = x * of_int M" by (simp add: q)
  define n where "n = round_half_even (x * of_int M)"
  have c_hi: "x \<le> of_int c" by (simp add: c_def)
  have c_lo: "of_int c - 1 < x" using ceiling_correct [of x] by (simp add: c_def)
  have n_le: "n \<le> c * M"
  proof -
    have "x * of_int M \<le> of_int (c * M)" using c_hi Mpos by (simp add: mult_right_mono)
    then show ?thesis unfolding n_def by (rule round_half_even_le)
  qed
  have gap: "1 / of_int b \<le> x - (of_int c - 1)"
  proof -
    have "x - (of_int c - 1) = of_int (a - (c - 1) * b) / of_int b"
      using bpos by (simp add: x_def field_simps)
    moreover have "0 < a - (c - 1) * b"
    proof -
      have "(of_int c - 1) * of_int b < (of_int a :: rat)"
        using c_lo bpos by (simp add: x_def pos_less_divide_eq)
      then have "(of_int ((c - 1) * b) :: rat) < of_int a" by simp
      then have "(c - 1) * b < a" by (simp only: of_int_less_iff)
      then show ?thesis by simp
    qed
    then have "(1::rat) \<le> of_int (a - (c - 1) * b)" by linarith
    ultimately show ?thesis using bpos by (simp add: divide_right_mono)
  qed
  have Mq: "(of_int M :: rat) = 2 powi (52 - e)"
    using ehi by (simp add: M_def power_int_def)
  have eM: "(2::rat) powi e * of_int M = 2 ^ 53 / 2"
  proof -
    have "(2::rat) powi e * 2 powi (52 - e) = 2 powi (e + (52 - e))"
      by (subst power_int_add) simp_all
    then show ?thesis by (simp add: Mq)
  qed
  have Mb: "of_int b < 2 * (of_int M :: rat)"
  proof -
    have "(2::rat) powi e * of_int b \<le> x * of_int b" using lo bpos by (simp add: mult_right_mono)
    then have 1: "(2::rat) powi e * of_int b < 2 ^ 53" using xlt by linarith
    have 2: "(0::rat) < 2 powi e" by simp
    have "(2::rat) powi e * (2 * of_int M) = 2 * (2 powi e * of_int M)"
      by (rule mult.left_commute)
    also have "\<dots> = 2 * (2 ^ 53 / 2)" by (simp only: eM)
    also have "\<dots> = 2 ^ 53" by simp
    finally have 3: "(2::rat) powi e * (2 * of_int M) = 2 ^ 53" .
    have "(2::rat) powi e * of_int b < 2 powi e * (2 * of_int M)"
      unfolding 3 by (rule 1)
    then show ?thesis using 2 by (simp only: mult_less_cancel_left_pos)
  qed
  have n_gt: "(c - 1) * M < n"
  proof -
    have "of_int ((c - 1) * M) + of_int M / of_int b \<le> x * of_int M"
    proof -
      have "(of_int c - 1 + 1 / of_int b) * of_int M \<le> x * (of_int M :: rat)"
        using gap Mpos by (intro mult_right_mono) auto
      then show ?thesis by (simp add: field_simps)
    qed
    moreover have "1 / 2 < of_int M / (of_int b :: rat)" using Mb bpos by (simp add: field_simps)
    moreover have "\<bar>of_int n - x * of_int M\<bar> \<le> 1 / 2" unfolding n_def by (rule round_half_even_close)
    ultimately have "(of_int ((c - 1) * M) :: rat) < of_int n" by linarith
    then show ?thesis by (simp only: of_int_less_iff)
  qed
  define r :: rat where "r = of_int n * 2 powi (e - 52)"
  have r: "r = of_int n / of_int M" by (simp add: r_def q)
  have r_hi: "r \<le> of_int c"
  proof -
    have "(of_int n :: rat) \<le> of_int (c * M)" using n_le by (simp only: of_int_le_iff)
    then have "(of_int n :: rat) \<le> of_int c * of_int M" by simp
    then show ?thesis using Mpos unfolding r by (simp add: pos_divide_le_eq)
  qed
  have r_lo: "of_int c - 1 < r"
  proof -
    have "(of_int ((c - 1) * M) :: rat) < of_int n" using n_gt by (simp only: of_int_less_iff)
    then have "(of_int c - 1) * of_int M < (of_int n :: rat)" by simp
    then show ?thesis using Mpos unfolding r by (simp add: pos_less_divide_eq)
  qed
  have ceil: "\<lceil>r\<rceil> = c" using r_hi r_lo by (simp add: ceiling_unique)
  have c_small: "(of_int c :: rat) \<le> 2 ^ 53"
  proof -
    have "x \<le> x * of_int b" using xpos b by (simp add: mult_le_cancel_left1)
    then have "x \<le> of_int (2 ^ 53)" using xlt by simp
    then have "c \<le> 2 ^ 53" unfolding c_def by (simp add: ceiling_le_iff)
    then show ?thesis by (metis of_int_le_iff of_int_numeral of_int_power)
  qed
  have "0 < c" using xpos unfolding c_def by simp
  then have c_pos: "(1::rat) \<le> of_int c" by simp
  have r_pos: "0 \<le> r" using r_lo c_pos by linarith
  have fl: "flog2 \<bar>x\<bar> = e" by (simp add: e_def)
  have rr: "of_int (round_half_even (x / 2 powi (flog2 \<bar>x\<bar> - 52))) * 2 powi (flog2 \<bar>x\<bar> - 52) = r"
    unfolding fl xq r_def n_def ..
  have "(2::rat) ^ 53 < 2 powi 1024" by simp
  then have bound: "\<bar>r\<bar> < 2 powi 1024" using r_pos r_hi c_small by linarith
  have n0: "x \<noteq> 0" using xpos by simp
  have e1: "- 1022 \<le> flog2 \<bar>x\<bar>" using elo fl by simp
  have b1: "\<bar>of_int (round_half_even (x / 2 powi (flog2 \<bar>x\<bar> - 52))) * 2 powi (flog2 \<bar>x\<bar> - 52) :: rat\<bar>
      < 2 powi 1024"
    using bound unfolding rr .
  have "round64 x = Num r"
    using round64_normal [OF n0 e1 b1] unfolding rr .
  then show ?thesis
    using bpos by (simp add: ceil flip: x_def c_def)
qed

section \<open>Verification: the query builder\<close>

lemma conditions_push_filter:
  "conditions (push_filter pre post f b) =
     (if truthy f then conditions b @ [pre @ ''$'' @ show_nat (idx b) @ post] else conditions b)"
  by (cases f) (simp_all add: push_filter_def)

lemma idx_push_filter:
  "idx (push_filter pre post f b) = (if truthy f then idx b + 1 else idx b)"
  by (cases f) (simp_all add: push_filter_def)

lemma bound_values_push_filter:
  "bound_values (push_filter pre post f b) =
     bound_values b @ List.map_filter (\<lambda>f. if truthy f then f else None) [f]"
  by (cases f) (simp_all add: push_filter_def List.map_filter_def)

lemma filters_presence:
  assumes "present q1 = present q2"
  shows "conditions (filters q1) = conditions (filters q2)"
    and "idx (filters q1) = idx (filters q2)"
  using assms
  by (simp_all add: present_def filters_def Let_def conditions_push_filter idx_push_filter)

lemma bound_values_filters: "bound_values (filters q) = present_values q"
  by (simp add: filters_def Let_def bound_values_push_filter present_values_def
      List.map_filter_def)

lemma hd_conditions_filters: "\<exists>cs. conditions (filters q) = visibility_public # cs"
  by (simp add: filters_def Let_def conditions_push_filter)

lemma prefix_join: "prefix x (join sep (x # xs))"
  by (cases xs) simp_all

text \<open>
  C1.  Two requests in which the same filters among priority, status, stage and tags are
  present get the same WHERE clause, hence the same count query, and the same page
  query when their effective sort column and direction agree.  The clause starts with
  the predicate \<open>visibility = 'PUBLIC'\<close>, and the raw filter values appear only in the
  bound parameters: those of the count query are exactly the present values, those of
  the page query the present values followed by limit and offset.
\<close>

theorem where_clause_text:
  assumes "present q1 = present q2"
  shows "whereClause q1 = whereClause q2
       \<and> count_sql q1 = count_sql q2
       \<and> (sortBySafe q1 = sortBySafe q2 \<and> sortDirSafe q1 = sortDirSafe q2
            \<longrightarrow> page_sql q1 = page_sql q2)
       \<and> prefix visibility_public (whereClause q1)
       \<and> count_params q1 = map PQuery (present_values q1)
       \<and> page_params q1
            = map PQuery (present_values q1) @ [PNumber (limit q1), PNumber (offset q1)]"
proof -
  have w: "whereClause q1 = whereClause q2"
    using filters_presence(1) [OF assms] by (simp add: whereClause_def)
  obtain cs where "conditions (filters q1) = visibility_public # cs"
    using hd_conditions_filters by blast
  then have p: "prefix visibility_public (whereClause q1)"
    by (simp add: whereClause_def prefix_join)
  show ?thesis
    using w p filters_presence(2) [OF assms]
    by (simp add: count_sql_def page_sql_def count_params_def page_params_def
        bound_values_filters)
qed

theorem where_clause_text_witness:
  "present (no_query\<lparr>priority := Some (QStr ''HIGH'')\<rparr>)
     = present (no_query\<lparr>priority := Some (QStr ''LOW'')\<rparr>)
   \<and> whereClause (no_query\<lparr>priority := Some (QStr ''HIGH'')\<rparr>)
     = whereClause (no_query\<lparr>priority := Some (QStr ''LOW'')\<rparr>)
   \<and> count_params (no_query\<lparr>priority := Some (QStr ''HIGH'')\<rparr>) = [PQuery (QStr ''HIGH'')]"
proof -
  have h: "present (no_query\<lparr>priority := Some (QStr ''HIGH'')\<rparr>)
     = present (no_query\<lparr>priority := Some (QStr ''LOW'')\<rparr>)"
    by (simp add: present_def no_query_def)
  have v: "present_values (no_query\<lparr>priority := Some (QStr ''HIGH'')\<rparr>) = [QStr ''HIGH'']"
    by (simp add: present_values_def no_query_def List.map_filter_def)
  from where_clause_text [OF h] show ?thesis
    using h v by simp
qed

section \<open>Verification: the list endpoint\<close>

lemma of_char_digit_char: "0 \<le> d \<Longrightarrow> d < 10 \<Longrightarrow> (of_char (digit_char d) :: int) = 48 + d"
  by (simp add: digit_char_def of_char_of)

lemma digit_val_digit_char: "0 \<le> d \<Longrightarrow> d < 10 \<Longrightarrow> digit_val (digit_char d) = d"
  by (simp add: digit_val_def of_char_digit_char)

lemma is_digit_digit_char: "0 \<le> d \<Longrightarrow> d < 10 \<Longrightarrow> is_digit (digit_char d)"
  by (simp add: is_digit_def of_char_digit_char)

lemma show_int_digits:
  "0 \<le> n \<Longrightarrow> list_all is_digit (show_int n) \<and> digits_val (show_int n) = n \<and> show_int n \<noteq> []"
proof (induction n rule: show_int.induct)
  case (1 n)
  show ?case
  proof (cases "n < 10")
    case True
    then show ?thesis using 1(2)
      by (subst (1 2 3) show_int.simps)
        (simp add: digits_val_def digit_val_digit_char is_digit_digit_char)
  next
    case False
    then have ih: "list_all is_digit (show_int (n div 10))" "digits_val (show_int (n div 10)) = n div 10"
      using 1 by simp_all
    have d: "0 \<le> n mod 10" "n mod 10 < 10" by simp_all
    show ?thesis using False ih d
      by (subst (1 2 3) show_int.simps)
        (simp add: digits_val_def digit_val_digit_char is_digit_digit_char)
  qed
qed

lemma parseInt_show_nat: "parseInt (show_nat n) = round64 (of_nat n)"
proof -
  obtain c cs where s: "show_int (int n) = c # cs"
    using show_int_digits [of "int n"] by (cases "show_int (int n)") auto
  have all: "list_all is_digit (c # cs)" and v: "digits_val (c # cs) = int n"
    using show_int_digits [of "int n"] by (simp_all add: s)
  have c: "is_digit c" using all by simp
  then have nws: "\<not> is_ws c" and nsign: "c \<noteq> CHR ''-''" "c \<noteq> CHR ''+''"
    by (auto simp: is_digit_def is_ws_def)
  have tw: "takeWhile is_digit (c # cs) = c # cs"
    using all by (simp add: takeWhile_eq_all_conv list_all_iff)
  show ?thesis
    unfolding parseInt_def show_nat_def s
    using nws nsign tw v by (simp add: Let_def)
qed

lemma limit_cases:
  "limit q = (case parseInt (per_page_string q) of
                NaN \<Rightarrow> Num 10 | PInf \<Rightarrow> Num 100 | NInf \<Rightarrow> NInf
              | Num x \<Rightarrow> if x = 0 then Num 10 else Num (min x 100))"
  by (simp add: limit_def js_or_def split: jsnum.splits)

lemma sql_bigint_Some:
  "sql_bigint x = Some n \<longleftrightarrow> (\<exists>a. x = Num a \<and> 0 \<le> a \<and> of_int \<lfloor>a\<rfloor> = a \<and> a < 2 ^ 63 \<and> n = nat \<lfloor>a\<rfloor>)"
  by (cases x) (auto simp: sql_bigint_def)

lemma limit_bigint:
  assumes "sql_bigint (limit q) = Some n"
  shows "limit q = Num (of_int (int n)) \<and> 1 \<le> n \<and> n \<le> 100"
proof -
  obtain a where a: "limit q = Num a" "0 \<le> a" "of_int \<lfloor>a\<rfloor> = a" "n = nat \<lfloor>a\<rfloor>"
    using assms unfolding sql_bigint_Some by blast
  define k where "k = \<lfloor>a\<rfloor>"
  have ak: "a = of_int k" unfolding k_def using a(3) by (rule sym)
  have "a \<noteq> 0 \<and> a \<le> 100"
    using a(1) unfolding limit_cases by (auto split: jsnum.splits if_splits)
  then have "0 < a" "a \<le> 100" using a(2) by auto
  then have "0 < k" "k \<le> 100" unfolding ak by simp_all
  moreover have "n = nat k" using a(4) by (simp add: k_def)
  ultimately show ?thesis using a(1) ak by auto
qed

lemma list_cards_cases:
  "list_cards db q =
     (if query_fails db (count_sql q) (count_params q) = None
         \<and> query_fails db (page_sql q) (page_params q) = None
         \<and> query_fails db stage_funding_sql [] = None
         \<and> sql_bigint (limit q) \<noteq> None \<and> sql_bigint (offset q) \<noteq> None
      then Response 200 cache_control
        (Json \<lparr>pagination =
                 \<lparr>current_page = parseInt (page_string q),
                  pagination_per_page = limit q,
                  total_pages =
                    Math_ceil (js_div (parseInt (show_nat (length (matching db q)))) (limit q))\<rparr>,
               cards = cardsWithFunding (stageFundingMap (card_stage_funding_table db))
                 (take (the (sql_bigint (limit q))) (drop (the (sql_bigint (offset q)))
                   (sort_key (sort_rank db (ToString (sortBySafe q)) (ToString (sortDirSafe q)))
                      (matching db q))))\<rparr>)
      else Response 500 cache_control (ErrorJson ''Internal server error''))"
  by (auto simp: list_cards_def query_count_def query_page_def query_stage_funding_def Let_def
      split: option.splits)

lemma total_pages_ceiling_lemma:
  assumes "sql_bigint (limit q) = Some n" and "m < 2 ^ 53"
  shows "Math_ceil (js_div (parseInt (show_nat m)) (limit q))
       = Num (of_int \<lceil>(of_nat m :: rat) / of_nat n\<rceil>)"
proof -
  have l: "limit q = Num (of_int (int n))" "1 \<le> n" "n \<le> 100"
    using limit_bigint [OF assms(1)] by auto
  have "\<bar>int m\<bar> \<le> 2 ^ 53" using assms(2) by simp
  then have p: "parseInt (show_nat m) = Num (of_int (int m))"
    using round64_of_int [of "int m"] by (simp add: parseInt_show_nat)
  have "Math_ceil (js_div (Num (of_int (int m))) (Num (of_int (int n))))
      = Num (of_int \<lceil>(of_int (int m) :: rat) / of_int (int n)\<rceil>)"
    using assms(2) l(2,3) by (intro Math_ceil_js_div) simp_all
  then show ?thesis by (simp add: p l(1))
qed

lemma cardsWithFunding_Nil: "cardsWithFunding m [] = []"
  by (simp add: cardsWithFunding_def)

text \<open>
  C7.  Whenever the list endpoint answers 200, the limit is a whole number \<open>n\<close> from 1
  to 100 and the reported number of pages is the ceiling of the number of matching
  rows divided by \<open>n\<close>; with no matching row it reports 0 pages and an empty array of
  cards.  The count is taken below \<open>2 ^ 53\<close>, where \<open>parseInt\<close> reads it exactly.
\<close>

theorem total_pages_ceiling:
  assumes "list_cards db q = Response 200 hs (Json b)"
    and "length (matching db q) < 2 ^ 53"
  shows "\<exists>n. pagination_per_page (pagination b) = Num (of_nat n) \<and> 1 \<le> n \<and> n \<le> 100
           \<and> total_pages (pagination b)
               = Num (of_int \<lceil>(of_nat (length (matching db q)) :: rat) / of_nat n\<rceil>)
           \<and> (length (matching db q) = 0 \<longrightarrow> total_pages (pagination b) = Num 0 \<and> cards b = [])"
proof -
  have ok: "sql_bigint (limit q) \<noteq> None"
    using assms(1) unfolding list_cards_cases by (auto split: if_splits)
  then obtain n where n: "sql_bigint (limit q) = Some n" by blast
  have b: "pagination_per_page (pagination b) = limit q"
    "total_pages (pagination b)
       = Math_ceil (js_div (parseInt (show_nat (length (matching db q)))) (limit q))"
    "cards b = cardsWithFunding (stageFundingMap (card_stage_funding_table db))
       (take (the (sql_bigint (limit q))) (drop (the (sql_bigint (offset q)))
          (sort_key (sort_rank db (ToString (sortBySafe q)) (ToString (sortDirSafe q)))
             (matching db q))))"
    using assms(1) unfolding list_cards_cases by (auto split: if_splits)
  have l: "limit q = Num (of_int (int n))" "1 \<le> n" "n \<le> 100"
    using limit_bigint [OF n] by auto
  have t: "total_pages (pagination b)
      = Num (of_int \<lceil>(of_nat (length (matching db q)) :: rat) / of_nat n\<rceil>)"
    unfolding b(2) using total_pages_ceiling_lemma [OF n assms(2)] .
  have z: "length (matching db q) = 0 \<longrightarrow> total_pages (pagination b) = Num 0 \<and> cards b = []"
    unfolding t b(3) by (simp add: cardsWithFunding_Nil)
  show ?thesis using b(1) l t z by auto
qed

lemma example_list_response:
  "list_cards example_db page_one = Response 200 cache_control (Json example_page)"
  by code_simp

lemma example_matching: "matching example_db page_one = [card_a, card_b]"
  by code_simp

theorem total_pages_ceiling_witness:
  "list_cards example_db page_one = Response 200 cache_control (Json example_page)
   \<and> length (matching example_db page_one) < 2 ^ 53
   \<and> (\<exists>n. pagination_per_page (pagination example_page) = Num (of_nat n) \<and> 1 \<le> n \<and> n \<le> 100
          \<and> total_pages (pagination example_page)
               = Num (of_int \<lceil>(of_nat (length (matching example_db page_one)) :: rat) / of_nat n\<rceil>))"
proof -
  have l: "length (matching example_db page_one) < 2 ^ 53"
    by (simp add: example_matching)
  show ?thesis
    using total_pages_ceiling [OF example_list_response l] example_list_response l by blast
qed

lemma list_cards_rejected:
  assumes "sql_bigint (limit q) = None \<or> sql_bigint (offset q) = None"
  shows "list_cards db q = Response 500 cache_control (ErrorJson ''Internal server error'')"
  using assms by (auto simp: list_cards_cases)

text \<open>
  C2.  What the handler computes for a page that is zero, not a number or negative: no
  default takes the place of the value.  For \<open>page=0\<close> the offset is \<open>-10\<close> and the page
  read is 0, for \<open>page=abc\<close> both are NaN, and the page query, given such an offset, is
  rejected by the server, so the request ends in the 500 response.  Only an absent
  page gives offset 0 and page 1.
\<close>

theorem invalid_page_is_not_page_one:
  "offset (no_query\<lparr>page := Some (QStr ''0'')\<rparr>) = Num (- 10)
   \<and> parseInt (page_string (no_query\<lparr>page := Some (QStr ''0'')\<rparr>)) = Num 0
   \<and> list_cards db (no_query\<lparr>page := Some (QStr ''0'')\<rparr>)
       = Response 500 cache_control (ErrorJson ''Internal server error'')
   \<and> offset (no_query\<lparr>page := Some (QStr ''abc'')\<rparr>) = NaN
   \<and> parseInt (page_string (no_query\<lparr>page := Some (QStr ''abc'')\<rparr>)) = NaN
   \<and> list_cards db (no_query\<lparr>page := Some (QStr ''abc'')\<rparr>)
       = Response 500 cache_control (ErrorJson ''Internal server error'')
   \<and> offset (no_query\<lparr>page := Some (QStr ''-2'')\<rparr>) = Num (- 30)
   \<and> offset no_query = Num 0
   \<and> parseInt (page_string no_query) = Num 1"
proof -
  have a: "offset (no_query\<lparr>page := Some (QStr ''0'')\<rparr>) = Num (- 10)" by code_simp
  have b: "parseInt (page_string (no_query\<lparr>page := Some (QStr ''0'')\<rparr>)) = Num 0" by code_simp
  have c: "offset (no_query\<lparr>page := Some (QStr ''abc'')\<rparr>) = NaN" by code_simp
  have d: "parseInt (page_string (no_query\<lparr>page := Some (QStr ''abc'')\<rparr>)) = NaN" by code_simp
  have e: "offset (no_query\<lparr>page := Some (QStr ''-2'')\<rparr>) = Num (- 30)" by code_simp
  have f: "offset no_query = Num 0" by code_simp
  have g: "parseInt (page_string no_query) = Num 1" by code_simp
  have a': "sql_bigint (offset (no_query\<lparr>page := Some (QStr ''0'')\<rparr>)) = None"
    unfolding a by (simp add: sql_bigint_def)
  have c': "sql_bigint (offset (no_query\<lparr>page := Some (QStr ''abc'')\<rparr>)) = None"
    unfolding c by (simp add: sql_bigint_def)
  show ?thesis
    using a b c d e f g list_cards_rejected [of _ db] a' c' by simp
qed

text \<open>
  C3.  What the handler computes for a negative per_page: \<open>-5 || 10\<close> is \<open>-5\<close> and
  \<open>Math.min(-5, 100)\<close> is \<open>-5\<close>, so the limit is \<open>-5\<close>, outside 1 to 100; the server
  rejects the page query and the request ends in the 500 response.  The other inputs
  are treated as intended: 500 gives 100, 0 and \<open>abc\<close> and no per_page give 10, 25 gives
  25.
\<close>

theorem negative_per_page_is_not_clamped:
  "limit (no_query\<lparr>per_page := Some (QStr ''-5'')\<rparr>) = Num (- 5)
   \<and> list_cards db (no_query\<lparr>per_page := Some (QStr ''-5'')\<rparr>)
       = Response 500 cache_control (ErrorJson ''Internal server error'')
   \<and> limit (no_query\<lparr>per_page := Some (QStr ''500'')\<rparr>) = Num 100
   \<and> limit (no_query\<lparr>per_page := Some (QStr ''0'')\<rparr>) = Num 10
   \<and> limit (no_query\<lparr>per_page := Some (QStr ''abc'')\<rparr>) = Num 10
   \<and> limit (no_query\<lparr>per_page := Some (QStr ''25'')\<rparr>) = Num 25
   \<and> limit no_query = Num 10"
proof -
  have a: "limit (no_query\<lparr>per_page := Some (QStr ''-5'')\<rparr>) = Num (- 5)" by code_simp
  have b: "limit (no_query\<lparr>per_page := Some (QStr ''500'')\<rparr>) = Num 100"
    "limit (no_query\<lparr>per_page := Some (QStr ''0'')\<rparr>) = Num 10"
    "limit (no_query\<lparr>per_page := Some (QStr ''abc'')\<rparr>) = Num 10"
    "limit (no_query\<lparr>per_page := Some (QStr ''25'')\<rparr>) = Num 25"
    "limit no_query = Num 10"
    by code_simp+
  have "sql_bigint (limit (no_query\<lparr>per_page := Some (QStr ''-5'')\<rparr>)) = None"
    unfolding a by (simp add: sql_bigint_def)
  then show ?thesis using a b list_cards_rejected [of _ db] by simp
qed

lemma lookup_group_rows:
  "(case group_rows rows m k of None \<Rightarrow> [] | Some es \<Rightarrow> es)
     = (case m k of None \<Rightarrow> [] | Some es \<Rightarrow> es)
       @ map entry_of (filter (\<lambda>r. row_card_id r = k) rows)"
  by (induction rows arbitrary: m) (auto simp: Let_def split: option.splits)

lemma lookup_stageFundingMap:
  "(case stageFundingMap rows k of None \<Rightarrow> [] | Some es \<Rightarrow> es)
     = map entry_of (filter (\<lambda>r. row_card_id r = k) rows)"
  using lookup_group_rows [of rows Map.empty k] by (simp add: stageFundingMap_def)

lemma foldl_requested:
  "foldl (\<lambda>sum s. js_add sum (requested s)) z es
     = foldl js_add z (map (amount \<circ> s_funding_requested) es)"
  by (induction es arbitrary: z) (simp_all add: requested_def)

lemma digits_val_zeros: "digits_val (replicate k (CHR ''0'') @ m) = digits_val m"
  by (induction k) (simp_all add: digits_val_def digit_val_def)

lemma toFixed_8_format:
  assumes "\<bar>a\<bar> < 10 ^ 21"
  shows "\<exists>ip fp. toFixed 8 (Num a) = (if a < 0 then ''-'' else []) @ ip @ ''.'' @ fp
           \<and> ip \<noteq> [] \<and> list_all is_digit ip \<and> list_all is_digit fp \<and> length fp = 8
           \<and> digits_val (ip @ fp) = \<lfloor>\<bar>a\<bar> * 10 ^ 8 + 1 / 2\<rfloor>"
proof -
  define n where "n = \<lfloor>\<bar>a\<bar> * 10 ^ 8 + 1 / 2\<rfloor>"
  define m where "m = show_int n"
  define z where "z = replicate (8 + 1 - length m) (CHR ''0'') @ m"
  have "0 \<le> \<bar>a\<bar> * 10 ^ 8 + 1 / 2" by simp
  then have n0: "0 \<le> n" unfolding n_def by (simp only: zero_le_floor)
  have m: "list_all is_digit m" "digits_val m = n"
    using show_int_digits [OF n0] by (simp_all add: m_def)
  have d0: "is_digit (CHR ''0'')" by (simp add: is_digit_def)
  have z: "list_all is_digit z" "digits_val z = n" "9 \<le> length z"
    using m d0 by (auto simp: z_def digits_val_zeros list_all_iff)
  have t: "toFixed 8 (Num a)
      = (if a < 0 then ''-'' else []) @ take (length z - 8) z @ ''.'' @ drop (length z - 8) z"
    using assms by (simp add: toFixed_def Let_def z_def m_def n_def)
  have ip: "take (length z - 8) z \<noteq> []" using z(3) by auto
  have fp: "length (drop (length z - 8) z) = 8" using z(3) by simp
  have all: "list_all is_digit (take (length z - 8) z)" "list_all is_digit (drop (length z - 8) z)"
    using z(1) by (auto simp: list_all_iff dest: in_set_takeD in_set_dropD)
  show ?thesis
    using t ip fp all z(2) by (intro exI [of _ "take (length z - 8) z"] exI [of _ "drop (length z - 8) z"]) (simp add: n_def)
qed

lemma total_empty: "totalRequested [] = ''0.00000000''"
  by code_simp

lemma total_example:
  "toFixed 8 (foldl js_add (Num 0) (map amount [Some ''1.5'', Some ''2.25''])) = ''3.75000000''"
  by code_simp

text \<open>
  C5, as the code has it.  For every card of a 200 response, \<open>stage_funding\<close> is the
  group of the card's rows of \<open>card_stage_funding\<close>, in table order, and
  \<open>total_funding_requested\<close> is \<open>toFixed(8)\<close> of the binary64 sum, taken from 0 in row
  order, of \<open>parseFloat(funding_requested || 0)\<close> over the group.  A card without rows
  gets \<open>0.00000000\<close> and the empty group; rows requesting 1.5 and 2.25 give
  \<open>3.75000000\<close>.  When the sum is a finite Number below \<open>10 ^ 21\<close> in magnitude, the
  string is a sign, digits, a point and exactly 8 digits, denoting the multiple of
  \<open>10 ^ -8\<close> nearest to the binary64 sum.
\<close>

theorem stage_funding_and_total:
  assumes "list_cards db q = Response 200 hs (Json b)" and "c \<in> set (cards b)"
  shows "stage_funding c
           = map entry_of (filter (\<lambda>r. row_card_id r = c_id (card_row c)) (card_stage_funding_table db))
       \<and> total_funding_requested c
           = toFixed 8 (foldl js_add (Num 0) (map (amount \<circ> s_funding_requested) (stage_funding c)))
       \<and> (stage_funding c = [] \<longrightarrow> total_funding_requested c = ''0.00000000'')
       \<and> (map s_funding_requested (stage_funding c) = [Some ''1.5'', Some ''2.25'']
            \<longrightarrow> total_funding_requested c = ''3.75000000'')
       \<and> (\<forall>a. foldl js_add (Num 0) (map (amount \<circ> s_funding_requested) (stage_funding c)) = Num a
                \<and> \<bar>a\<bar> < 10 ^ 21
            \<longrightarrow> (\<exists>ip fp. total_funding_requested c = (if a < 0 then ''-'' else []) @ ip @ ''.'' @ fp
                   \<and> ip \<noteq> [] \<and> list_all is_digit ip \<and> list_all is_digit fp \<and> length fp = 8
                   \<and> digits_val (ip @ fp) = \<lfloor>\<bar>a\<bar> * 10 ^ 8 + 1 / 2\<rfloor>))"
proof -
  have "cards b = cardsWithFunding (stageFundingMap (card_stage_funding_table db))
       (take (the (sql_bigint (limit q))) (drop (the (sql_bigint (offset q)))
          (sort_key (sort_rank db (ToString (sortBySafe q)) (ToString (sortDirSafe q)))
             (matching db q))))"
    using assms(1) unfolding list_cards_cases by (auto split: if_splits)
  then obtain r where c: "c = \<lparr>card_row = r,
      stage_funding = (case stageFundingMap (card_stage_funding_table db) (c_id r) of
                         None \<Rightarrow> [] | Some es \<Rightarrow> es),
      total_funding_requested =
        totalRequested (case stageFundingMap (card_stage_funding_table db) (c_id r) of
                          None \<Rightarrow> [] | Some es \<Rightarrow> es)\<rparr>"
    using assms(2) by (auto simp: cardsWithFunding_def Let_def)
  have s: "stage_funding c
      = map entry_of (filter (\<lambda>r. row_card_id r = c_id (card_row c)) (card_stage_funding_table db))"
    by (simp add: c lookup_stageFundingMap)
  have t: "total_funding_requested c
      = toFixed 8 (foldl js_add (Num 0) (map (amount \<circ> s_funding_requested) (stage_funding c)))"
    by (simp add: c totalRequested_def foldl_requested)
  have e: "stage_funding c = [] \<longrightarrow> total_funding_requested c = ''0.00000000''"
    using total_empty by (simp add: c)
  have x: "map s_funding_requested (stage_funding c) = [Some ''1.5'', Some ''2.25'']
      \<longrightarrow> total_funding_requested c = ''3.75000000''"
    unfolding t using total_example by (simp flip: map_map)
  have f: "\<forall>a. foldl js_add (Num 0) (map (amount \<circ> s_funding_requested) (stage_funding c)) = Num a
                \<and> \<bar>a\<bar> < 10 ^ 21
            \<longrightarrow> (\<exists>ip fp. total_funding_requested c = (if a < 0 then ''-'' else []) @ ip @ ''.'' @ fp
                   \<and> ip \<noteq> [] \<and> list_all is_digit ip \<and> list_all is_digit fp \<and> length fp = 8
                   \<and> digits_val (ip @ fp) = \<lfloor>\<bar>a\<bar> * 10 ^ 8 + 1 / 2\<rfloor>)"
    unfolding t using toFixed_8_format by auto
  show ?thesis using s t e x f by blast
qed

theorem stage_funding_and_total_witness:
  "list_cards example_db page_one = Response 200 cache_control (Json example_page)
   \<and> hd (cards example_page) \<in> set (cards example_page)
   \<and> map s_funding_requested (stage_funding (hd (cards example_page))) = [Some ''1.5'', Some ''2.25'']
   \<and> total_funding_requested (hd (cards example_page)) = ''3.75000000''"
proof -
  have m: "hd (cards example_page) \<in> set (cards example_page)"
    by (simp add: example_page_def)
  have r: "map s_funding_requested (stage_funding (hd (cards example_page)))
      = [Some ''1.5'', Some ''2.25'']"
    by (simp add: example_page_def)
  show ?thesis
    using stage_funding_and_total [OF example_list_response m] example_list_response m r by blast
qed

text \<open>
  The total is computed in binary64, so it is not always the decimal sum of the rows:
  a card whose only row requests 90071992.54740993 gets the total 90071992.54740994,
  while the exact sum of its rows, formatted with 8 fractional digits, is
  90071992.54740993.
\<close>

theorem total_is_not_the_decimal_sum:
  "list_cards large_amount_db no_query =
     Response 200 cache_control
       (Json \<lparr>pagination = \<lparr>current_page = Num 1, pagination_per_page = Num 10, total_pages = Num 1\<rparr>,
              cards =
                [\<lparr>card_row = card_a,
                  stage_funding =
                    [\<lparr>s_stage = ''DESIGN'', s_funding_requested = Some ''90071992.54740993'',
                       s_currency = ''ZEC'', s_note = None\<rparr>],
                  total_funding_requested = ''90071992.54740994''\<rparr>,
                 \<lparr>card_row = card_b, stage_funding = [],
                  total_funding_requested = ''0.00000000''\<rparr>]\<rparr>)
   \<and> map row_funding_requested (card_stage_funding_table large_amount_db)
       = [Some ''90071992.54740993'']
   \<and> exact_total [Some ''90071992.54740993''] = ''90071992.54740993''"
  by (intro conjI) code_simp+

lemma sort_effective:
  "sortBySafe (q\<lparr>sort_by := Some (sortBySafe q), sort_dir := d\<rparr>) = sortBySafe q"
  "sortDirSafe (q\<lparr>sort_by := b, sort_dir := Some (sortDirSafe q)\<rparr>) = sortDirSafe q"
  by (auto simp: sortBySafe_def sort_by_value_def sortDirSafe_def sort_dir_value_def
      validSortBy_def validSortDir_def)

lemma sort_irrelevant:
  "filters (q\<lparr>sort_by := b, sort_dir := d\<rparr>) = filters q"
  "limit (q\<lparr>sort_by := b, sort_dir := d\<rparr>) = limit q"
  "offset (q\<lparr>sort_by := b, sort_dir := d\<rparr>) = offset q"
  "page_string (q\<lparr>sort_by := b, sort_dir := d\<rparr>) = page_string q"
  by (simp_all add: filters_def limit_def offset_def page_string_def per_page_string_def)

lemma list_cards_effective_sort:
  "list_cards db (q\<lparr>sort_by := Some (sortBySafe q), sort_dir := Some (sortDirSafe q)\<rparr>)
     = list_cards db q"
  unfolding list_cards_cases
  by (simp only: sort_effective sort_irrelevant page_sql_def count_sql_def whereClause_def
      page_params_def count_params_def matching_def)

text \<open>
  C9.  A raw sort_by outside the four allowed columns (absent or not) gives the sort
  column last_updated, a raw sort_dir outside asc and desc gives desc; the effective
  column and direction always lie in the allow-lists.  The request is answered exactly
  as the request that names the effective column and direction: an unrecognized value
  is replaced, not rejected.
\<close>

theorem sort_fallback:
  "(sort_by q \<notin> Some ` QStr ` set validSortBy \<longrightarrow> sortBySafe q = QStr ''last_updated'')
   \<and> (sort_dir q \<notin> Some ` QStr ` set validSortDir \<longrightarrow> sortDirSafe q = QStr ''desc'')
   \<and> sortBySafe q \<in> QStr ` set validSortBy
   \<and> sortDirSafe q \<in> QStr ` set validSortDir
   \<and> list_cards db q
       = list_cards db (q\<lparr>sort_by := Some (sortBySafe q), sort_dir := Some (sortDirSafe q)\<rparr>)"
proof -
  have inc: "array_includes xs v \<longleftrightarrow> v \<in> QStr ` set xs" for xs v
    by (cases v) auto
  have a: "sort_by q \<notin> Some ` QStr ` set validSortBy \<Longrightarrow> sortBySafe q = QStr ''last_updated''"
    by (cases "sort_by q") (auto simp: sortBySafe_def sort_by_value_def inc)
  have b: "sort_dir q \<notin> Some ` QStr ` set validSortDir \<Longrightarrow> sortDirSafe q = QStr ''desc''"
    by (cases "sort_dir q") (auto simp: sortDirSafe_def sort_dir_value_def inc)
  have c: "sortBySafe q \<in> QStr ` set validSortBy"
    by (auto simp: sortBySafe_def inc) (simp add: validSortBy_def)
  have d: "sortDirSafe q \<in> QStr ` set validSortDir"
    by (auto simp: sortDirSafe_def inc) (simp add: validSortDir_def)
  show ?thesis using a b c d list_cards_effective_sort [of db q] by simp
qed

theorem sort_fallback_witness:
  "sortBySafe (no_query\<lparr>sort_by := Some (QStr ''title; DROP TABLE cards'')\<rparr>) = QStr ''last_updated''
   \<and> sortDirSafe (no_query\<lparr>sort_dir := Some (QArr [QStr ''asc''])\<rparr>) = QStr ''desc''"
proof -
  have a: "sort_by (no_query\<lparr>sort_by := Some (QStr ''title; DROP TABLE cards'')\<rparr>)
      \<notin> Some ` QStr ` set validSortBy"
    by (simp add: validSortBy_def image_iff)
  have b: "sort_dir (no_query\<lparr>sort_dir := Some (QArr [QStr ''asc''])\<rparr>)
      \<notin> Some ` QStr ` set validSortDir"
    by (simp add: validSortDir_def image_iff)
  show ?thesis
    using a b
      sort_fallback [of "no_query\<lparr>sort_by := Some (QStr ''title; DROP TABLE cards'')\<rparr>" example_db]
      sort_fallback [of "no_query\<lparr>sort_dir := Some (QArr [QStr ''asc''])\<rparr>" example_db]
    by blast
qed

section \<open>Verification: the detail endpoint\<close>


lemma get_own_JNull: "get_own JNull k = None"
  by simp



lemma address_info_Inr:
  assumes "address_info fetch a = Inr en"
  shows "\<exists>b r s t. en = AddressInfo a b r s t"
  using assms by (auto simp: address_info_def split: sum.splits)


lemma step_cases:
  "try_catch (try_block fetch a st) (catch_block a st) =
     Inr \<lparr>results = results st @ [entry_for fetch a],
          total_balance = (if succeeded (entry_for fetch a)
             then js_add (total_balance st) (entry_balance (entry_for fetch a)) else total_balance st),
          total_received = (if succeeded (entry_for fetch a)
             then js_add (total_received st) (entry_total_received (entry_for fetch a))
             else total_received st),
          total_sent = (if succeeded (entry_for fetch a)
             then js_add (total_sent st) (entry_total_sent (entry_for fetch a)) else total_sent st)\<rparr>"
proof (cases "address_info fetch a")
  case (Inl e)
  then show ?thesis
    by (cases st) (simp add: try_catch_def try_block_def catch_block_def entry_for_def)
next
  case (Inr en)
  then obtain b r s t where "en = AddressInfo a b r s t" using address_info_Inr by blast
  then show ?thesis using Inr
    by (simp add: try_catch_def try_block_def entry_for_def)
qed

lemma foldl_filter_succeeded:
  "foldl js_add z (map f (filter succeeded (e # es)))
     = foldl js_add (if succeeded e then js_add z (f e) else z) (map f (filter succeeded es))"
  by simp

lemma wallet_loop_eq:
  "wallet_loop fetch addrs st =
     Inr \<lparr>results = results st @ map (entry_for fetch) addrs,
          total_balance = foldl js_add (total_balance st)
            (map entry_balance (filter succeeded (map (entry_for fetch) addrs))),
          total_received = foldl js_add (total_received st)
            (map entry_total_received (filter succeeded (map (entry_for fetch) addrs))),
          total_sent = foldl js_add (total_sent st)
            (map entry_total_sent (filter succeeded (map (entry_for fetch) addrs)))\<rparr>"
proof (induction addrs arbitrary: st)
  case Nil
  show ?case by (cases st) simp
next
  case (Cons a addrs)
  show ?case
    by (simp only: wallet_loop.simps step_cases sum.case Cons.IH) simp
qed

lemma fetchWalletInfo_eq:
  "fetchWalletInfo fetch addrs =
     Inr \<lparr>addresses = map (entry_for fetch) addrs,
          totals =
            \<lparr>totals_balance = foldl js_add (Num 0)
               (map entry_balance (filter succeeded (map (entry_for fetch) addrs))),
             totals_total_received = foldl js_add (Num 0)
               (map entry_total_received (filter succeeded (map (entry_for fetch) addrs))),
             totals_total_sent = foldl js_add (Num 0)
               (map entry_total_sent (filter succeeded (map (entry_for fetch) addrs)))\<rparr>\<rparr>"
  by (simp add: fetchWalletInfo_def wallet_loop_eq)













lemma get_card_cases:
  "get_card db fetch ident =
     (case query_fails db card_by_id_sql [PString ident] of
        Some e \<Rightarrow> Response 500 cache_control (ErrorJson ''Internal server error'')
      | None \<Rightarrow>
         (case filter (\<lambda>c. c_id c = ident \<and> visibility c = ''PUBLIC'') (cards_table db) of
            [] \<Rightarrow> Response 404 cache_control (ErrorJson ''Not Found'')
          | card_r # _ \<Rightarrow>
              (case wallet_addresses card_r of
                 Some (a # as) \<Rightarrow>
                   (case fetchWalletInfo fetch (a # as) of
                      Inr walletInfo \<Rightarrow>
                        Response 200 cache_control (Json (CardWithWalletInfo card_r walletInfo))
                    | Inl err \<Rightarrow>
                        Response 200 cache_control
                          (Json (CardWithWalletInfoError card_r ''Failed to retrieve wallet info'')))
               | _ \<Rightarrow> Response 200 cache_control (Json (CardOnly card_r)))))"
  by (simp add: get_card_def query_card_def split: option.splits)

text \<open>
  C10.  fetchWalletInfo returns for every list of addresses and every behaviour of the
  remote service: each failure of a lookup is caught in the loop.  So the detail
  handler never takes the branch that attaches \<open>wallet_info_error\<close>: no response of
  it has that body.
\<close>

theorem wallet_info_error_unreachable:
  "(\<exists>w. fetchWalletInfo fetch addrs = Inr w)
   \<and> (\<forall>c msg. res_body (get_card db fetch ident) \<noteq> Json (CardWithWalletInfoError c msg))"
proof -
  have a: "\<exists>w. fetchWalletInfo fetch addrs = Inr w"
    by (simp add: fetchWalletInfo_eq)
  have b: "res_body (get_card db fetch ident) \<noteq> Json (CardWithWalletInfoError c msg)" for c msg
    by (simp add: get_card_cases fetchWalletInfo_eq split: option.splits list.splits)
  show ?thesis using a b by blast
qed

theorem wallet_info_error_unreachable_witness:
  "(\<exists>w. fetchWalletInfo example_upstream [''t1down'', ''t1gone''] = Inr w)
   \<and> res_body (get_card example_db example_upstream (c_id card_a))
       \<noteq> Json (CardWithWalletInfoError card_a ''Failed to retrieve wallet info'')"
  using wallet_info_error_unreachable
    [of example_upstream "[''t1down'', ''t1gone'']" example_db "c_id card_a"]
  by blast

text \<open>
  C6.  When the query itself succeeds, the detail endpoint answers an identifier that
  no card has and an identifier whose card is not PUBLIC with the same response: status
  404, the same headers, the body \<open>{error: 'Not Found'}\<close>.  An identifier of a PUBLIC
  card is answered with status 200.
\<close>

theorem not_found_is_uniform:
  assumes "query_fails db card_by_id_sql [PString ident] = None"
  shows "((\<forall>c \<in> set (cards_table db). c_id c \<noteq> ident)
            \<longrightarrow> get_card db fetch ident = Response 404 cache_control (ErrorJson ''Not Found''))
       \<and> ((\<forall>c \<in> set (cards_table db). c_id c = ident \<longrightarrow> visibility c \<noteq> ''PUBLIC'')
            \<longrightarrow> get_card db fetch ident = Response 404 cache_control (ErrorJson ''Not Found''))
       \<and> ((\<exists>c \<in> set (cards_table db). c_id c = ident \<and> visibility c = ''PUBLIC'')
            \<longrightarrow> res_status (get_card db fetch ident) = 200)"
proof -
  let ?rows = "filter (\<lambda>c. c_id c = ident \<and> visibility c = ''PUBLIC'') (cards_table db)"
  have e: "?rows = [] \<longleftrightarrow> (\<forall>c \<in> set (cards_table db). c_id c = ident \<longrightarrow> visibility c \<noteq> ''PUBLIC'')"
    by (auto simp: filter_empty_conv)
  have n: "get_card db fetch ident = Response 404 cache_control (ErrorJson ''Not Found'')"
    if "?rows = []"
    using that assms by (simp add: get_card_cases)
  have f: "res_status (get_card db fetch ident) = 200" if "?rows \<noteq> []"
    using that assms
    by (cases ?rows) (simp_all add: get_card_cases fetchWalletInfo_eq split: option.splits list.splits)
  show ?thesis using e n f by blast
qed

theorem not_found_is_uniform_witness:
  "query_fails example_db card_by_id_sql [PString (c_id card_private)] = None
   \<and> get_card example_db example_upstream (c_id card_private)
       = Response 404 cache_control (ErrorJson ''Not Found'')
   \<and> get_card example_db example_upstream ''00000000-0000-4000-8000-000000000000''
       = Response 404 cache_control (ErrorJson ''Not Found'')
   \<and> res_status (get_card example_db example_upstream (c_id card_b)) = 200"
proof -
  have q: "query_fails example_db card_by_id_sql [PString i] = None" for i
    by (simp add: example_db_def)
  have 1: "\<forall>c \<in> set (cards_table example_db). c_id c = c_id card_private \<longrightarrow> visibility c \<noteq> ''PUBLIC''"
    by (simp add: example_db_def card_a_def card_b_def card_private_def)
  have 2: "\<forall>c \<in> set (cards_table example_db). c_id c \<noteq> ''00000000-0000-4000-8000-000000000000''"
    by (simp add: example_db_def card_a_def card_b_def card_private_def)
  have 3: "\<exists>c \<in> set (cards_table example_db). c_id c = c_id card_b \<and> visibility c = ''PUBLIC''"
    by (simp add: example_db_def card_a_def card_b_def card_private_def)
  show ?thesis
    using q 1 2 3
      not_found_is_uniform [OF q, of "c_id card_private" example_upstream]
      not_found_is_uniform [OF q, of "''00000000-0000-4000-8000-000000000000''" example_upstream]
      not_found_is_uniform [OF q, of "c_id card_b" example_upstream]
    by blast
qed

end
